theory Spec2Isabelle
  imports Complex_Main "HOL-Library.Word" "HOL-Library.Log_Nat"
begin

section \<open>RC bridge: pairing, framing and channel hopping over ESP-NOW\<close>

text \<open>
  A shallow embedding of \<^verbatim>\<open>RCBridge::RCBridgeBase::reset\<close>, \<^verbatim>\<open>RCBridge::BasicSender\<close>
  and \<^verbatim>\<open>RCBridge::BasicReceiver\<close>. The radio (\<^verbatim>\<open>esp_now_send\<close>, \<^verbatim>\<open>wifi_set_channel\<close>),
  the random generator and the file system are external: what they answer is a parameter
  of every handler, and every call a handler makes to them, or to a user hook, is
  recorded in the list of effects the handler returns. Debug output is not modelled.
\<close>

subsection \<open>Constants of \<^verbatim>\<open>RCBridgeBase\<close>\<close>

type_synonym byte = "8 word"

definition FPATH_PEER :: string where "FPATH_PEER = ''peer.info''"

definition MIN_CHANNEL :: byte where "MIN_CHANNEL = 1"
definition MAX_CHANNEL :: byte where "MAX_CHANNEL = 13"
definition INIT_CHANNEL :: byte where "INIT_CHANNEL = 7"

definition CMD_SEARCH :: byte where "CMD_SEARCH = 1"
definition RPL_SEARCH :: byte where "RPL_SEARCH = 2"
definition CMD_HOP :: byte where "CMD_HOP = 3"
definition RPL_HOP :: byte where "RPL_HOP = 4"
definition CMD_DATA :: byte where "CMD_DATA = 5"

subsection \<open>The platform and the effects of a handler\<close>

text \<open>
  \<open>esp_now_send\<close> gives the return code of the call (0: the frame was accepted for
  transmission), \<open>wifi_set_channel\<close> its boolean result, and \<open>random_byte i\<close> the
  value \<^verbatim>\<open>(uint8_t)random(0, 256)\<close> of the \<open>i\<close>-th call after \<^verbatim>\<open>randomSeed(micros())\<close>.
\<close>

record platform =
  esp_now_send :: "byte list \<Rightarrow> byte list \<Rightarrow> int"
  wifi_set_channel :: "byte \<Rightarrow> bool"
  random_byte :: "nat \<Rightarrow> byte"

datatype effect =
    EspNowSend "byte list" "byte list"
  | WifiSetChannel byte
  | OnData "byte list"
  | OnLowRadioQuality

subsection \<open>The peer record and the state shared by both roles\<close>

record peer_info =
  addr :: "byte list"
  key :: "byte list"

record bridge =
  matched :: bool
  peer :: peer_info

subsection \<open>\<^verbatim>\<open>RCBridgeBase::reset\<close>\<close>

text \<open>
  LittleFS is external. Its two operations used by \<open>reset\<close> are parameters: \<open>fs_exists\<close>
  answers whether a path exists, \<open>fs_remove\<close> returns its boolean result and the file
  system after the call.
\<close>

record 'fs littlefs =
  fs_exists :: "'fs \<Rightarrow> string \<Rightarrow> bool"
  fs_remove :: "'fs \<Rightarrow> string \<Rightarrow> bool \<times> 'fs"

definition reset :: "'fs littlefs \<Rightarrow> 'fs \<Rightarrow> bool \<times> 'fs" where
  "reset L fs =
     (if fs_exists L fs FPATH_PEER then
        (case fs_remove L fs FPATH_PEER of
           (removed, fs') \<Rightarrow> if \<not> removed then (False, fs') else (True, fs'))
      else (True, fs))"

text \<open>
  A file system whose removal may fail: a map from paths to contents and the set of
  paths that cannot be removed.
\<close>

type_synonym blob_store = "(string \<rightharpoonup> byte list) \<times> string set"

definition blob_fs :: "blob_store littlefs" where
  "blob_fs =
     \<lparr> fs_exists = (\<lambda>(files, locked) p. files p \<noteq> None),
       fs_remove = (\<lambda>(files, locked) p.
          if files p \<noteq> None \<and> p \<notin> locked then (True, (files(p := None), locked))
          else (False, (files, locked))) \<rparr>"

subsection \<open>Single precision numbers\<close>

text \<open>
  \<^verbatim>\<open>radio_quality\<close> is a \<^verbatim>\<open>float\<close>: an IEEE 754 binary32 number, every operation
  rounded to nearest, ties to even. A finite binary32 number is \<open>m * 2 ^ e\<close> with
  \<open>\<bar>m\<bar> < 2 ^ 24\<close>; in the canonical form used here either \<open>2 ^ 23 \<le> \<bar>m\<bar>\<close> and
  \<open>- 149 \<le> e\<close> (normal) or \<open>e = - 149\<close> (subnormal, zero). Infinities and NaN are left
  out: an operation whose result would exceed the largest finite number is outside the
  model, and no computation of the estimator comes near it.
\<close>

datatype binary32 = Binary32 (significand: int) (exponent: int)

definition valof :: "binary32 \<Rightarrow> real" where
  "valof x = of_int (significand x) * 2 powi exponent x"

definition is_binary32 :: "binary32 \<Rightarrow> bool" where
  "is_binary32 x \<longleftrightarrow>
     \<bar>significand x\<bar> < 2 ^ 24 \<and> - 149 \<le> exponent x \<and>
     (2 ^ 23 \<le> \<bar>significand x\<bar> \<or> exponent x = - 149)"

text \<open>\<open>a / 2 ^ k\<close> for \<open>0 \<le> a\<close>, rounded to the nearest integer, ties to the even one.\<close>

definition rne_shift :: "int \<Rightarrow> nat \<Rightarrow> int" where
  "rne_shift a k =
     (let q = a div 2 ^ k; r = a mod 2 ^ k
      in if 2 ^ k < 2 * r \<or> (2 * r = 2 ^ k \<and> odd q) then q + 1 else q)"

text \<open>The exact number \<open>M * 2 ^ E\<close> rounded to binary32.\<close>

definition round32 :: "int \<Rightarrow> int \<Rightarrow> binary32" where
  "round32 M E =
     (if M = 0 then Binary32 0 (- 149)
      else
        let k = max (bitlen \<bar>M\<bar> - 24) (- 149 - E) in
        if k \<le> 0 then Binary32 (M * 2 ^ nat (- k)) (E + k)
        else
          let m = rne_shift \<bar>M\<bar> (nat k) in
          if m = 2 ^ 24 then Binary32 (sgn M * 2 ^ 23) (E + k + 1)
          else Binary32 (sgn M * m) (E + k))"

definition f32_mul :: "binary32 \<Rightarrow> binary32 \<Rightarrow> binary32" where
  "f32_mul x y = round32 (significand x * significand y) (exponent x + exponent y)"

definition f32_add :: "binary32 \<Rightarrow> binary32 \<Rightarrow> binary32" where
  "f32_add x y =
     (let e = min (exponent x) (exponent y)
      in round32 (significand x * 2 ^ nat (exponent x - e) +
                  significand y * 2 ^ nat (exponent y - e)) e)"

definition f32_sub :: "binary32 \<Rightarrow> binary32 \<Rightarrow> binary32" where
  "f32_sub x y =
     (let e = min (exponent x) (exponent y)
      in round32 (significand x * 2 ^ nat (exponent x - e) -
                  significand y * 2 ^ nat (exponent y - e)) e)"

definition f32_less :: "binary32 \<Rightarrow> binary32 \<Rightarrow> bool" where
  "f32_less x y =
     (let e = min (exponent x) (exponent y)
      in significand x * 2 ^ nat (exponent x - e) < significand y * 2 ^ nat (exponent y - e))"

text \<open>The conversion of \<^verbatim>\<open>(status == 0)\<close>, an \<^verbatim>\<open>int\<close> 0 or 1, to \<^verbatim>\<open>float\<close>.\<close>

definition f32_one :: binary32 where "f32_one = Binary32 (2 ^ 23) (- 23)"
definition f32_zero :: binary32 where "f32_zero = Binary32 0 (- 149)"

definition f32_of_bool :: "bool \<Rightarrow> binary32" where
  "f32_of_bool b = (if b then f32_one else f32_zero)"

subsection \<open>\<^verbatim>\<open>BasicSender\<close>\<close>

text \<open>\<^verbatim>\<open>0.01f\<close> is \<open>10737418 * 2 ^ - 30\<close> and \<^verbatim>\<open>0.75f\<close> is \<open>3 * 2 ^ - 2\<close>.\<close>

definition quality_weight :: binary32 where "quality_weight = Binary32 10737418 (- 30)"
definition hop_threshold :: binary32 where "hop_threshold = Binary32 12582912 (- 24)"

text \<open>\<^verbatim>\<open>static constexpr float cw = 1.0f - quality_weight\<close>\<close>

definition cw :: binary32 where "cw = f32_sub f32_one quality_weight"

record sender = bridge +
  radio_quality :: binary32

text \<open>
  The two \<^verbatim>\<open>return false\<close> of \<open>send\<close> are told apart by what failed; the \<^verbatim>\<open>bool\<close> the
  source returns is \<open>send_ok\<close>. \<open>len\<close> is the \<^verbatim>\<open>uint8_t\<close> argument, \<open>data\<close> the buffer
  it describes, of which \<^verbatim>\<open>memcpy\<close> takes the first \<open>len\<close> bytes.
\<close>

datatype send_error = DataMoreThan249 | FailedToSend

definition send :: "platform \<Rightarrow> sender \<Rightarrow> byte \<Rightarrow> byte list \<Rightarrow> (send_error + unit) \<times> effect list" where
  "send pf s len data =
     (if 249 < unat len then (Inl DataMoreThan249, [])
      else
        let command = CMD_DATA # take (unat len) data in
        if esp_now_send pf (addr (peer s)) command \<noteq> 0
        then (Inl FailedToSend, [EspNowSend (addr (peer s)) command])
        else (Inr (), [EspNowSend (addr (peer s)) command]))"

definition send_ok :: "(send_error + unit) \<times> effect list \<Rightarrow> bool" where
  "send_ok r = (case fst r of Inl e \<Rightarrow> False | Inr u \<Rightarrow> True)"

text \<open>
  In the handlers \<open>data\<close> stands for the buffer and its \<^verbatim>\<open>uint8_t len\<close>, which is
  \<open>length data\<close>; \<open>a\<close> is the 6 byte source address.
\<close>

definition sender_onReceived :: "platform \<Rightarrow> sender \<Rightarrow> byte list \<Rightarrow> byte list \<Rightarrow> sender \<times> effect list" where
  "sender_onReceived pf s a data =
     (if \<not> matched s then
        (if length data = 1 + 16 \<and> data ! 0 = RPL_SEARCH
         then (s\<lparr>peer := \<lparr>addr = take 6 a, key = take 16 (drop 1 data)\<rparr>, matched := True\<rparr>, [])
         else (s, []))
      else
        (if length data = 2 \<and> data ! 0 = RPL_HOP
         then (s, [WifiSetChannel (data ! 1)])
         else (s, [])))"

definition sender_onSent :: "platform \<Rightarrow> sender \<Rightarrow> byte list \<Rightarrow> byte \<Rightarrow> sender \<times> effect list" where
  "sender_onSent pf s a status =
     (if \<not> matched s then (s, [])
      else
        let q = f32_add (f32_mul (radio_quality s) cw)
                        (f32_mul (f32_of_bool (status = 0)) quality_weight) in
        if f32_less q hop_threshold then
          (if esp_now_send pf (addr (peer s)) [CMD_HOP] = 0
           then (s\<lparr>radio_quality := f32_one\<rparr>,
                 [OnLowRadioQuality, EspNowSend (addr (peer s)) [CMD_HOP]])
           else (s\<lparr>radio_quality := q\<rparr>,
                 [OnLowRadioQuality, EspNowSend (addr (peer s)) [CMD_HOP]]))
        else (s\<lparr>radio_quality := q\<rparr>, []))"

subsection \<open>\<^verbatim>\<open>BasicReceiver\<close>\<close>

text \<open>\<open>channel_direction\<close> is an \<^verbatim>\<open>int8_t\<close>, read with \<open>sint\<close>.\<close>

record receiver = bridge +
  channel :: byte
  channel_direction :: "8 word"
  new_channel :: byte

definition receiver_onReceived :: "platform \<Rightarrow> receiver \<Rightarrow> byte list \<Rightarrow> byte list \<Rightarrow> receiver \<times> effect list" where
  "receiver_onReceived pf s a data =
     (if \<not> matched s then
        (if length data = 1 \<and> data ! 0 = CMD_SEARCH then
           let k = map (random_byte pf) [0..<16];
               reply = RPL_SEARCH # k
           in (s\<lparr>peer := \<lparr>addr = take 6 a, key = k\<rparr>\<rparr>, [EspNowSend a reply])
         else (s, []))
      else
        (if length data = 1 \<and> data ! 0 = CMD_HOP then
           let n = (word_of_int (uint (channel s) + sint (channel_direction s)) :: byte);
               n = (if MAX_CHANNEL < n then MAX_CHANNEL - 1
                    else if n < MIN_CHANNEL then MIN_CHANNEL + 1
                    else n)
           in (s\<lparr>new_channel := n\<rparr>, [EspNowSend (addr (peer s)) [RPL_HOP, n]])
         else if 1 \<le> length data \<and> data ! 0 = CMD_DATA then
           (s, [OnData (drop 1 data)])
         else (s, [])))"

definition receiver_onSent :: "platform \<Rightarrow> receiver \<Rightarrow> byte list \<Rightarrow> byte \<Rightarrow> receiver \<times> effect list" where
  "receiver_onSent pf s a status =
     (if \<not> matched s then
        (if status = 0 then (s\<lparr>matched := True\<rparr>, []) else (s, []))
      else
        (if status = 0 then
           (if wifi_set_channel pf (new_channel s)
            then (s\<lparr>channel_direction := word_of_int (uint (new_channel s) - uint (channel s)),
                    channel := new_channel s\<rparr>,
                  [WifiSetChannel (new_channel s)])
            else (s, [WifiSetChannel (new_channel s)]))
         else (s, [])))"

subsection \<open>The upcalls of the radio\<close>

text \<open>
  The radio calls \<^verbatim>\<open>onReceived\<close> and \<^verbatim>\<open>onSent\<close> one after the other, never at the
  same time. An execution is a list of such calls, each with the answers the platform
  gives while the call runs; its effects are those of the calls, in order.
\<close>

datatype event = Received "byte list" "byte list" | Sent "byte list" byte

fun receiver_step :: "receiver \<Rightarrow> platform \<times> event \<Rightarrow> receiver \<times> effect list" where
  "receiver_step s (pf, Received a data) = receiver_onReceived pf s a data"
| "receiver_step s (pf, Sent a status) = receiver_onSent pf s a status"

fun receiver_run :: "receiver \<Rightarrow> (platform \<times> event) list \<Rightarrow> receiver \<times> effect list" where
  "receiver_run s [] = (s, [])"
| "receiver_run s (e # es) =
     (case receiver_step s e of (s', out) \<Rightarrow>
        case receiver_run s' es of (s'', out') \<Rightarrow> (s'', out @ out'))"

fun sender_step :: "sender \<Rightarrow> platform \<times> event \<Rightarrow> sender \<times> effect list" where
  "sender_step s (pf, Received a data) = sender_onReceived pf s a data"
| "sender_step s (pf, Sent a status) = sender_onSent pf s a status"

fun sender_run :: "sender \<Rightarrow> (platform \<times> event) list \<Rightarrow> sender \<times> effect list" where
  "sender_run s [] = (s, [])"
| "sender_run s (e # es) =
     (case sender_step s e of (s', out) \<Rightarrow>
        case sender_run s' es of (s'', out') \<Rightarrow> (s'', out @ out'))"

text \<open>An event that is not a successful acknowledgement.\<close>

definition not_acked :: "platform \<times> event \<Rightarrow> bool" where
  "not_acked e = (case snd e of Received a data \<Rightarrow> True | Sent a status \<Rightarrow> status \<noteq> 0)"

text \<open>An event that is a failed acknowledgement: \<^verbatim>\<open>onSent\<close> with a status other than 0.\<close>

definition failed_ack :: "platform \<times> event \<Rightarrow> bool" where
  "failed_ack e = (case snd e of Received a data \<Rightarrow> False | Sent a status \<Rightarrow> status \<noteq> 0)"

subsection \<open>Names for parts of \<^verbatim>\<open>BasicSender::onSent\<close>\<close>

text \<open>
  \<open>estimate q acked\<close> is the right-hand side of the assignment
  \<^verbatim>\<open>radio_quality = radio_quality * cw + (status == 0) * quality_weight\<close>, \<open>decay\<close> is
  that step for a failed acknowledgement and \<open>decays n\<close> is \<open>n\<close> such steps.
  \<open>stays_above n q\<close> says that none of the \<open>n\<close> values after \<open>q\<close> is below the
  threshold. \<open>hop_request s\<close> is what the low quality branch does: the hook, then the
  HOP_REQUEST to the peer.
\<close>

definition estimate :: "binary32 \<Rightarrow> bool \<Rightarrow> binary32" where
  "estimate q acked = f32_add (f32_mul q cw) (f32_mul (f32_of_bool acked) quality_weight)"

definition decay :: "binary32 \<Rightarrow> binary32" where
  "decay q = estimate q False"

fun decays :: "nat \<Rightarrow> binary32 \<Rightarrow> binary32" where
  "decays 0 q = q"
| "decays (Suc n) q = decays n (decay q)"

fun stays_above :: "nat \<Rightarrow> binary32 \<Rightarrow> bool" where
  "stays_above 0 q = True"
| "stays_above (Suc n) q = (\<not> f32_less (decay q) hop_threshold \<and> stays_above n (decay q))"

definition hop_request :: "sender \<Rightarrow> effect list" where
  "hop_request s = [OnLowRadioQuality, EspNowSend (addr (peer s)) [CMD_HOP]]"

subsection \<open>The candidate channel in the words of the specification\<close>

text \<open>
  Section 4.5, step 1: \<open>current + direction\<close>, and \<open>MAX_CHANNEL - 1\<close> or
  \<open>MIN_CHANNEL + 1\<close> when that steps past a bound.
\<close>

definition clamp_and_reflect :: "int \<Rightarrow> int \<Rightarrow> int" where
  "clamp_and_reflect current direction =
     (if current + direction > uint MAX_CHANNEL then uint MAX_CHANNEL - 1
      else if current + direction < uint MIN_CHANNEL then uint MIN_CHANNEL + 1
      else current + direction)"

subsection \<open>Concrete platforms and states\<close>

definition radio_accepting :: platform where
  "radio_accepting =
     \<lparr> esp_now_send = (\<lambda>a f. 0), wifi_set_channel = (\<lambda>c. True),
       random_byte = (\<lambda>i. of_nat (7 * i + 1)) \<rparr>"

definition radio_rejecting :: platform where
  "radio_rejecting =
     \<lparr> esp_now_send = (\<lambda>a f. 1), wifi_set_channel = (\<lambda>c. False),
       random_byte = (\<lambda>i. of_nat (7 * i + 1)) \<rparr>"

definition peer_example :: peer_info where
  "peer_example = \<lparr> addr = [0xAA, 0xBB, 0xCC, 0xDD, 0xEE, 0xFF], key = replicate 16 0x11 \<rparr>"

definition sender_paired :: sender where
  "sender_paired = \<lparr> matched = True, peer = peer_example, radio_quality = f32_one \<rparr>"

definition sender_fading :: sender where
  "sender_fading =
     \<lparr> matched = True, peer = peer_example, radio_quality = Binary32 12662091 (- 24) \<rparr>"

definition receiver_paired :: receiver where
  "receiver_paired =
     \<lparr> matched = True, peer = peer_example,
       channel = 13, channel_direction = 1, new_channel = 0 \<rparr>"

definition receiver_unpaired :: receiver where
  "receiver_unpaired =
     \<lparr> matched = False, peer = \<lparr> addr = replicate 6 0, key = replicate 16 0 \<rparr>,
       channel = 7, channel_direction = 1, new_channel = 0 \<rparr>"

definition store_example :: blob_store where
  "store_example = ([FPATH_PEER \<mapsto> replicate 22 0x5A], {})"

section \<open>Properties\<close>

lemmas command_defs =
  CMD_SEARCH_def RPL_SEARCH_def CMD_HOP_def RPL_HOP_def CMD_DATA_def

lemmas channel_defs = MIN_CHANNEL_def MAX_CHANNEL_def INIT_CHANNEL_def

subsection \<open>Rounding to binary32\<close>

text \<open>
  \<open>rne_shift\<close> rounds to a nearest integer and to the even one at a tie, and it is
  monotone. \<open>round32\<close> always gives a binary32 number. On the non-negative numbers,
  the only ones the estimator meets, it does not change a number that is binary32
  already and it is monotone in the value of \<open>M * 2 ^ E\<close>, whatever pair \<open>M\<close>,
  \<open>E\<close> presents that value. Hence sums and products are monotone in their exact
  results, and \<open>f32_less\<close> compares values.
\<close>

lemma rne_shift_between:
  "a div 2 ^ k \<le> rne_shift a k \<and> rne_shift a k \<le> a div 2 ^ k + 1"
  by (simp add: rne_shift_def Let_def)

lemma rne_shift_exact: "rne_shift (n * 2 ^ k) k = n"
  by (simp add: rne_shift_def Let_def)

lemma rne_shift_mono:
  assumes "a \<le> b"
  shows "rne_shift a k \<le> rne_shift b k"
proof -
  let ?P = "(2::int) ^ k"
  have P: "0 < ?P" by simp
  have q: "a div ?P \<le> b div ?P" using assms P by (simp add: zdiv_mono1)
  show ?thesis
  proof (cases "a div ?P = b div ?P")
    case True
    have "a = ?P * (a div ?P) + a mod ?P" "b = ?P * (b div ?P) + b mod ?P" by simp_all
    with True assms have "a mod ?P \<le> b mod ?P"
      by (metis add_le_cancel_left)
    with True show ?thesis by (auto simp: rne_shift_def Let_def)
  next
    case False
    with q have "a div ?P + 1 \<le> b div ?P" by simp
    with rne_shift_between [of a k] rne_shift_between [of b k] show ?thesis by linarith
  qed
qed

lemma rne_shift_scale: "rne_shift (a * 2 ^ j) (k + j) = rne_shift a k"
proof -
  have d: "(a * 2 ^ j) div 2 ^ (k + j) = a div (2 ^ k :: int)"
    by (simp add: power_add)
  have m: "(a * 2 ^ j) mod 2 ^ (k + j) = (a mod (2 ^ k :: int)) * 2 ^ j"
    by (simp add: power_add mult.commute)
  show ?thesis
    unfolding rne_shift_def Let_def d m by (simp add: power_add)
qed

lemma rne_shift_le:
  assumes "a \<le> n * 2 ^ k"
  shows "rne_shift a k \<le> n"
  using rne_shift_mono [OF assms, of k] by (simp add: rne_shift_exact)

lemma rne_shift_ge:
  assumes "n * 2 ^ k \<le> a"
  shows "n \<le> rne_shift a k"
  using rne_shift_mono [OF assms, of k] by (simp add: rne_shift_exact)

lemma two_powi_split: "(2::real) powi (a + b) = 2 powi a * 2 powi b"
  by (simp add: power_int_add)

lemma valof_Binary32 [simp]: "valof (Binary32 m e) = of_int m * 2 powi e"
  by (simp add: valof_def)

lemma round32_pos:
  assumes "0 < M" and "k = max (bitlen M - 24) (- 149 - E)"
  shows "round32 M E =
     (if k \<le> 0 then Binary32 (M * 2 ^ nat (- k)) (E + k)
      else if rne_shift M (nat k) = 2 ^ 24 then Binary32 (2 ^ 23) (E + k + 1)
      else Binary32 (rne_shift M (nat k)) (E + k))"
  using assms(1) unfolding assms(2) round32_def Let_def by simp

lemma valof_round32:
  assumes "0 < M" and "k = max (bitlen M - 24) (- 149 - E)"
  shows "valof (round32 M E) =
     (if k \<le> 0 then of_int M * 2 powi E
      else of_int (rne_shift M (nat k)) * 2 powi (E + k))"
proof (cases "k \<le> 0")
  case True
  have "(2::real) ^ nat (- k) * 2 powi (E + k) = 2 powi (- k) * 2 powi (E + k)"
    using True by (simp add: power_int_nonneg_exp)
  also have "\<dots> = 2 powi (- k + (E + k))" by (simp only: two_powi_split)
  also have "\<dots> = 2 powi E" by simp
  finally have "(2::real) ^ nat (- k) * 2 powi (E + k) = 2 powi E" .
  then have "of_int M * (2::real) ^ nat (- k) * 2 powi (E + k) = of_int M * 2 powi E"
    by (simp add: mult.assoc)
  with True show ?thesis
    by (simp add: round32_pos [OF assms])
next
  case False
  have "(2::real) ^ 23 * 2 powi (E + k + 1) = 2 ^ 24 * 2 powi (E + k)"
    by (simp add: two_powi_split [of "E + k" 1])
  with False show ?thesis
    by (simp add: round32_pos [OF assms])
qed

lemma valof_round32_nonneg:
  assumes "0 \<le> M"
  shows "0 \<le> valof (round32 M E)"
proof (cases "M = 0")
  case True
  then show ?thesis by (simp add: round32_def)
next
  case False
  with assms have M: "0 < M" by simp
  have "0 \<le> M div 2 ^ k" for k using M by (simp add: pos_imp_zdiv_nonneg_iff)
  with rne_shift_between [of M] have "0 \<le> rne_shift M k" for k
    by (meson order_trans)
  then show ?thesis
    using M by (simp add: valof_round32 [OF M refl])
qed

lemma round32_exact:
  assumes "0 \<le> m" "m < 2 ^ 24" "- 149 \<le> e"
  shows "valof (round32 m e) = of_int m * 2 powi e"
proof (cases "m = 0")
  case True
  then show ?thesis by (simp add: round32_def)
next
  case False
  with assms(1) have m: "0 < m" by simp
  have "bitlen m \<le> 24" using assms(2) by (simp add: bitlen_le_iff_power)
  with assms(3) have "max (bitlen m - 24) (- 149 - e) \<le> 0" by simp
  then show ?thesis by (simp add: valof_round32 [OF m refl])
qed

lemma bitlen_upper:
  assumes "0 < M" "bitlen M - 24 \<le> k" "0 \<le> k"
  shows "M < 2 ^ (24 + nat k)"
proof -
  have "bitlen M \<le> 24 + k" using assms by simp
  then have "M < 2 ^ nat (24 + k)" by (simp add: bitlen_le_iff_power)
  then show ?thesis using assms(3) by (simp add: nat_add_distrib)
qed

lemma bitlen_lower:
  assumes "0 < M" "bitlen M - 24 = k" "0 \<le> k"
  shows "2 ^ (23 + nat k) \<le> M"
proof -
  have "24 + k \<le> bitlen M" using assms by simp
  then have "2 ^ (nat (24 + k) - 1) \<le> M" using assms(3) by (simp add: bitlen_ge_iff_power)
  moreover have "nat (24 + k) - 1 = 23 + nat k" using assms(3) by simp
  ultimately show ?thesis by simp
qed

lemma round32_upper:
  assumes "0 < M" and "k = max (bitlen M - 24) (- 149 - E)"
  shows "valof (round32 M E) \<le> 2 powi (24 + k + E)"
proof (cases "k \<le> 0")
  case True
  have "bitlen M \<le> 24 + k" using assms(2) by simp
  moreover have "0 \<le> 24 + k" using bitlen_nonneg [of M] assms(2) True
    by (metis add.commute calculation dual_order.trans)
  ultimately have "M < 2 ^ nat (24 + k)" by (simp add: bitlen_le_iff_power)
  then have "real_of_int M < 2 ^ nat (24 + k)"
    by (metis of_int_less_iff of_int_numeral of_int_power)
  also have "\<dots> = 2 powi (24 + k)" using \<open>0 \<le> 24 + k\<close> by (simp add: power_int_nonneg_exp)
  finally have "real_of_int M * 2 powi E \<le> 2 powi (24 + k) * 2 powi E"
    by (simp add: mult_right_mono)
  also have "\<dots> = 2 powi (24 + k + E)" by (simp only: two_powi_split)
  finally show ?thesis using True by (simp add: valof_round32 [OF assms])
next
  case False
  then have k: "0 \<le> k" by simp
  have "M < 2 ^ (24 + nat k)"
    using assms k by (intro bitlen_upper) simp_all
  then have "M \<le> 2 ^ 24 * 2 ^ nat k" by (simp add: power_add)
  then have "rne_shift M (nat k) \<le> 2 ^ 24" by (rule rne_shift_le)
  then have "real_of_int (rne_shift M (nat k)) \<le> 2 ^ 24"
    by (metis of_int_le_iff of_int_numeral of_int_power)
  then have "real_of_int (rne_shift M (nat k)) * 2 powi (E + k) \<le> 2 ^ 24 * 2 powi (E + k)"
    by (simp add: mult_right_mono)
  also have "\<dots> = 2 powi 24 * 2 powi (E + k)" by simp
  also have "\<dots> = 2 powi (24 + (E + k))" by (simp only: two_powi_split)
  also have "24 + (E + k) = 24 + k + E" by simp
  finally show ?thesis using False by (simp add: valof_round32 [OF assms])
qed

lemma round32_lower:
  assumes "0 < M" and "k = bitlen M - 24" and "- 149 - E \<le> k" and "0 < k"
  shows "2 powi (23 + k + E) \<le> valof (round32 M E)"
proof -
  have k': "k = max (bitlen M - 24) (- 149 - E)" using assms by simp
  have "2 ^ (23 + nat k) \<le> M"
    using assms by (intro bitlen_lower) simp_all
  then have "2 ^ 23 * 2 ^ nat k \<le> M" by (simp add: power_add)
  then have "2 ^ 23 \<le> rne_shift M (nat k)" by (rule rne_shift_ge)
  then have "2 ^ 23 \<le> real_of_int (rne_shift M (nat k))"
    by (metis of_int_le_iff of_int_numeral of_int_power)
  then have *: "2 ^ 23 * 2 powi (E + k) \<le> real_of_int (rne_shift M (nat k)) * 2 powi (E + k)"
    by (simp add: mult_right_mono)
  have "(2::real) powi (23 + k + E) = 2 powi (23 + (E + k))"
    by (rule arg_cong [where f = "\<lambda>n. 2 powi n"]) simp
  also have "\<dots> = 2 powi 23 * 2 powi (E + k)" by (simp only: two_powi_split)
  also have "\<dots> = 2 ^ 23 * 2 powi (E + k)" by simp
  also note *
  finally show ?thesis using assms(4) by (simp add: valof_round32 [OF assms(1) k'])
qed

lemma bitlen_mono:
  assumes "0 < M" "M \<le> M'"
  shows "bitlen M \<le> bitlen M'"
proof -
  have "0 < M'" using assms by simp
  then have "M' < 2 ^ nat (bitlen M')" by (simp add: bitlen_bounds)
  with assms(2) have "M < 2 ^ nat (bitlen M')" by simp
  then show ?thesis by (simp add: bitlen_le_iff_power bitlen_nonneg)
qed

lemma round32_mono_same:
  assumes "0 < M" "M \<le> M'"
  shows "valof (round32 M E) \<le> valof (round32 M' E)"
proof -
  obtain k where k: "k = max (bitlen M - 24) (- 149 - E)" by blast
  obtain k' where k': "k' = max (bitlen M' - 24) (- 149 - E)" by blast
  have M': "0 < M'" using assms by simp
  have kk: "k \<le> k'" using bitlen_mono [OF assms] k k' by simp
  have real: "real_of_int M * 2 powi E \<le> real_of_int M' * 2 powi E"
    using assms(2) by (simp add: mult_right_mono)
  show ?thesis
  proof (cases "k' \<le> 0")
    case True
    with kk have "k \<le> 0" by simp
    with True real show ?thesis
      by (simp add: valof_round32 [OF assms(1) k] valof_round32 [OF M' k'])
  next
    case False
    show ?thesis
    proof (cases "k = k'")
      case True
      have "rne_shift M (nat k') \<le> rne_shift M' (nat k')"
        using assms(2) by (rule rne_shift_mono)
      then have "real_of_int (rne_shift M (nat k')) * 2 powi (E + k')
          \<le> real_of_int (rne_shift M' (nat k')) * 2 powi (E + k')"
        by (simp add: mult_right_mono)
      with True False show ?thesis
        by (simp add: valof_round32 [OF assms(1) k] valof_round32 [OF M' k'])
    next
      case neq: False
      with kk have lt: "k < k'" by simp
      have c: "- 149 - E \<le> k" using k by simp
      with lt k' have b: "k' = bitlen M' - 24" by simp
      have "valof (round32 M E) \<le> 2 powi (24 + k + E)"
        using assms(1) k by (rule round32_upper)
      also have "\<dots> \<le> 2 powi (23 + k' + E)"
        using lt by (intro power_int_increasing) simp_all
      also have "\<dots> \<le> valof (round32 M' E)"
        using M' b c lt False by (intro round32_lower) simp_all
      finally show ?thesis .
    qed
  qed
qed

lemma round32_scale:
  assumes "0 < M"
  shows "valof (round32 (M * 2 ^ j) (E - int j)) = valof (round32 M E)"
proof -
  obtain k where k: "k = max (bitlen M - 24) (- 149 - E)" by blast
  have Mj: "0 < M * 2 ^ j" using assms by simp
  have kj: "k + int j = max (bitlen (M * 2 ^ j) - 24) (- 149 - (E - int j))"
    using assms k by simp
  have e: "real_of_int (M * 2 ^ j) * 2 powi (E - int j) = real_of_int M * 2 powi E"
  proof -
    have "(2::real) ^ j * 2 powi (E - int j) = 2 powi (int j) * 2 powi (E - int j)" by simp
    also have "\<dots> = 2 powi (int j + (E - int j))" by (simp only: two_powi_split)
    also have "\<dots> = 2 powi E" by simp
    finally show ?thesis by (simp add: mult.assoc)
  qed
  show ?thesis
  proof (cases "k + int j \<le> 0")
    case True
    then have "k \<le> 0" by simp
    with True e show ?thesis
      by (simp add: valof_round32 [OF assms k] valof_round32 [OF Mj kj])
  next
    case False
    have ex: "E - int j + (k + int j) = E + k" by simp
    show ?thesis
    proof (cases "k \<le> 0")
      case k0: True
      have "int j = (k + int j) + (- k)" by simp
      then have "j = nat (- k) + nat (k + int j)" using False k0 by linarith
      then have "(2::int) ^ j = 2 ^ nat (- k) * 2 ^ nat (k + int j)"
        by (metis power_add)
      then have "M * 2 ^ j = (M * 2 ^ nat (- k)) * 2 ^ nat (k + int j)"
        by (simp add: mult.assoc)
      then have r: "rne_shift (M * 2 ^ j) (nat (k + int j)) = M * 2 ^ nat (- k)"
        by (simp only: rne_shift_exact)
      have "(2::real) ^ nat (- k) * 2 powi (E + k) = 2 powi (- k) * 2 powi (E + k)"
        using k0 by (simp add: power_int_nonneg_exp)
      also have "\<dots> = 2 powi (- k + (E + k))" by (simp only: two_powi_split)
      also have "\<dots> = 2 powi E" by simp
      finally have "real_of_int (M * 2 ^ nat (- k)) * 2 powi (E + k) = real_of_int M * 2 powi E"
        by (simp add: mult.assoc)
      with False k0 show ?thesis
        by (simp add: valof_round32 [OF assms k] valof_round32 [OF Mj kj] r ex)
    next
      case k1: False
      then have "nat (k + int j) = nat k + j" by simp
      then have "rne_shift (M * 2 ^ j) (nat (k + int j)) = rne_shift M (nat k)"
        by (simp add: rne_shift_scale)
      with False k1 show ?thesis
        by (simp add: valof_round32 [OF assms k] valof_round32 [OF Mj kj] ex)
    qed
  qed
qed

lemma round32_mono:
  assumes "0 \<le> M" "real_of_int M * 2 powi E \<le> real_of_int M' * 2 powi E'"
  shows "valof (round32 M E) \<le> valof (round32 M' E')"
proof (cases "M = 0")
  case True
  have "0 \<le> real_of_int M * 2 powi E" using assms(1) by simp
  with assms(2) have "0 \<le> real_of_int M' * 2 powi E'" by simp
  moreover have "0 < (2::real) powi E'" by simp
  ultimately have "0 \<le> M'" by (simp add: zero_le_mult_iff not_le [symmetric])
  then have "0 \<le> valof (round32 M' E')" by (rule valof_round32_nonneg)
  with True show ?thesis by (simp add: round32_def)
next
  case False
  with assms(1) have M: "0 < M" by simp
  obtain e where e: "e = min E E'" by blast
  obtain j where j: "j = nat (E - e)" by blast
  obtain j' where j': "j' = nat (E' - e)" by blast
  have Ej: "E = e + int j" and Ej': "E' = e + int j'" using e j j' by simp_all
  have s: "real_of_int (N * 2 ^ i) * 2 powi e = real_of_int N * 2 powi (e + int i)" for N i
  proof -
    have "(2::real) powi (e + int i) = 2 powi e * 2 powi (int i)" by (simp only: two_powi_split)
    then show ?thesis by simp
  qed
  from assms(2) have "real_of_int (M * 2 ^ j) * 2 powi e \<le> real_of_int (M' * 2 ^ j') * 2 powi e"
    unfolding s Ej [symmetric] Ej' [symmetric] .
  then have "real_of_int (M * 2 ^ j) \<le> real_of_int (M' * 2 ^ j')"
    by (simp add: mult_le_cancel_right)
  then have le: "M * 2 ^ j \<le> M' * 2 ^ j'" by (simp only: of_int_le_iff)
  have Mj: "0 < M * 2 ^ j" using M by simp
  with le have "0 < M' * 2 ^ j'" by simp
  then have M': "0 < M'" by (simp add: zero_less_mult_iff)
  have "valof (round32 M E) = valof (round32 (M * 2 ^ j) (E - int j))"
    using M by (simp only: round32_scale)
  also have "E - int j = e" using Ej by simp
  also have "valof (round32 (M * 2 ^ j) e) \<le> valof (round32 (M' * 2 ^ j') e)"
    using Mj le by (rule round32_mono_same)
  also have "e = E' - int j'" using Ej' by simp
  also have "valof (round32 (M' * 2 ^ j') (E' - int j')) = valof (round32 M' E')"
    using M' by (simp only: round32_scale)
  finally show ?thesis .
qed

lemma valof_nonneg_iff: "0 \<le> valof x \<longleftrightarrow> 0 \<le> significand x"
proof -
  have "0 < (2::real) powi exponent x" by simp
  then show ?thesis by (simp add: valof_def zero_le_mult_iff not_le [symmetric])
qed

lemma f32_mul_exact:
  "real_of_int (significand x * significand y) * 2 powi (exponent x + exponent y) =
     valof x * valof y"
  by (simp add: valof_def two_powi_split)

lemma f32_add_exact:
  "real_of_int (significand x * 2 ^ nat (exponent x - min (exponent x) (exponent y)) +
                significand y * 2 ^ nat (exponent y - min (exponent x) (exponent y))) *
     2 powi min (exponent x) (exponent y) = valof x + valof y"
proof -
  have s: "real_of_int (N * 2 ^ nat (E - e)) * 2 powi e = real_of_int N * 2 powi E"
    if "e \<le> E" for N E e
  proof -
    have "(2::real) ^ nat (E - e) * 2 powi e = 2 powi (E - e) * 2 powi e"
      using that by (simp add: power_int_nonneg_exp)
    also have "\<dots> = 2 powi (E - e + e)" by (simp only: two_powi_split)
    finally show ?thesis by (simp add: mult.assoc)
  qed
  show ?thesis
    unfolding of_int_add distrib_right valof_def
    by (simp only: s min.cobounded1 min.cobounded2)
qed

lemma f32_mul_nonneg:
  assumes "0 \<le> valof x" "0 \<le> valof y"
  shows "0 \<le> valof (f32_mul x y)"
proof -
  have "0 \<le> significand x * significand y"
    using assms by (simp add: valof_nonneg_iff)
  then show ?thesis unfolding f32_mul_def by (rule valof_round32_nonneg)
qed

lemma f32_mul_mono:
  assumes "0 \<le> valof x" "0 \<le> valof y" "valof x * valof y \<le> valof x' * valof y'"
  shows "valof (f32_mul x y) \<le> valof (f32_mul x' y')"
proof -
  have "0 \<le> significand x * significand y"
    using assms by (simp add: valof_nonneg_iff)
  moreover have "real_of_int (significand x * significand y) * 2 powi (exponent x + exponent y)
      \<le> real_of_int (significand x' * significand y') * 2 powi (exponent x' + exponent y')"
    unfolding f32_mul_exact by (fact assms(3))
  ultimately show ?thesis unfolding f32_mul_def by (rule round32_mono)
qed

lemma f32_add_nonneg:
  assumes "0 \<le> valof x" "0 \<le> valof y"
  shows "0 \<le> valof (f32_add x y)"
proof -
  have "0 \<le> significand x * 2 ^ nat (exponent x - min (exponent x) (exponent y)) +
             significand y * 2 ^ nat (exponent y - min (exponent x) (exponent y))"
    using assms by (simp add: valof_nonneg_iff)
  then show ?thesis unfolding f32_add_def Let_def by (rule valof_round32_nonneg)
qed

lemma f32_add_mono:
  assumes "0 \<le> valof x" "0 \<le> valof y" "valof x + valof y \<le> valof x' + valof y'"
  shows "valof (f32_add x y) \<le> valof (f32_add x' y')"
proof -
  have "0 \<le> significand x * 2 ^ nat (exponent x - min (exponent x) (exponent y)) +
             significand y * 2 ^ nat (exponent y - min (exponent x) (exponent y))"
    using assms by (simp add: valof_nonneg_iff)
  moreover have
    "real_of_int (significand x * 2 ^ nat (exponent x - min (exponent x) (exponent y)) +
                  significand y * 2 ^ nat (exponent y - min (exponent x) (exponent y))) *
       2 powi min (exponent x) (exponent y)
     \<le> real_of_int (significand x' * 2 ^ nat (exponent x' - min (exponent x') (exponent y')) +
                  significand y' * 2 ^ nat (exponent y' - min (exponent x') (exponent y'))) *
       2 powi min (exponent x') (exponent y')"
    unfolding f32_add_exact by (fact assms(3))
  ultimately show ?thesis unfolding f32_add_def Let_def by (rule round32_mono)
qed

lemma rne_shift_nearest: "2 * \<bar>rne_shift a k * 2 ^ k - a\<bar> \<le> 2 ^ k"
proof -
  obtain P :: int where P: "P = 2 ^ k" by blast
  obtain q where q: "q = a div P" by blast
  obtain r where r: "r = a mod P" by blast
  have a: "a = q * P + r" by (simp add: q r)
  have r0: "0 \<le> r" and r1: "r < P" by (simp_all add: r P)
  have "rne_shift a k = (if P < 2 * r \<or> (2 * r = P \<and> odd q) then q + 1 else q)"
    by (simp add: rne_shift_def Let_def P q r)
  then have "2 * \<bar>rne_shift a k * P - a\<bar> \<le> P"
    using r0 r1 by (auto simp: a algebra_simps)
  then show ?thesis by (simp only: P)
qed

lemma rne_shift_tie: "2 * (a mod 2 ^ k) = 2 ^ k \<Longrightarrow> even (rne_shift a k)"
  by (simp add: rne_shift_def Let_def)

lemma is_binary32_round32: "is_binary32 (round32 M E)"
proof (cases "M = 0")
  case True
  then show ?thesis by (simp add: round32_def is_binary32_def)
next
  case False
  obtain a where a: "a = \<bar>M\<bar>" by blast
  with False have a0: "0 < a" by simp
  obtain k where k: "k = max (bitlen a - 24) (- 149 - E)" by blast
  have r: "round32 M E =
     (if k \<le> 0 then Binary32 (M * 2 ^ nat (- k)) (E + k)
      else if rne_shift a (nat k) = 2 ^ 24 then Binary32 (sgn M * 2 ^ 23) (E + k + 1)
      else Binary32 (sgn M * rne_shift a (nat k)) (E + k))"
    using False unfolding a k round32_def Let_def by simp
  have e: "- 149 \<le> E + k" using k by simp
  show ?thesis
  proof (cases "k \<le> 0")
    case True
    have b: "bitlen a + (- k) \<le> 24" using k by simp
    have "a < 2 ^ nat (bitlen a)" using a0 by (simp add: bitlen_bounds)
    then have "a * 2 ^ nat (- k) < 2 ^ nat (bitlen a) * 2 ^ nat (- k)" by simp
    also have "\<dots> = 2 ^ (nat (bitlen a) + nat (- k))" by (simp add: power_add)
    also have "\<dots> \<le> 2 ^ 24"
      using b True bitlen_nonneg [of a] by (intro power_increasing) simp_all
    finally have 1: "\<bar>M * 2 ^ nat (- k)\<bar> < 2 ^ 24" by (simp add: abs_mult a)
    have 2: "2 ^ 23 \<le> \<bar>M * 2 ^ nat (- k)\<bar> \<or> E + k = - 149"
    proof (cases "k = bitlen a - 24")
      case kb: True
      have "1 \<le> bitlen a" using a0 bitlen_eq_zero_iff [of a] bitlen_nonneg [of a] by linarith
      have "(2::int) ^ 23 = 2 ^ (nat (bitlen a - 1) + nat (- k)) "
        using kb True \<open>1 \<le> bitlen a\<close> by (intro arg_cong [where f = "\<lambda>n. 2 ^ n"]) simp
      also have "\<dots> = 2 ^ nat (bitlen a - 1) * 2 ^ nat (- k)" by (simp add: power_add)
      also have "\<dots> \<le> a * 2 ^ nat (- k)"
        using a0 bitlen_bounds [of a] by simp
      finally show ?thesis by (simp add: abs_mult a)
    next
      case False
      with k show ?thesis by simp
    qed
    from True 1 2 e show ?thesis by (simp add: r is_binary32_def)
  next
    case pos: False
    then have k0: "0 \<le> k" by simp
    let ?m = "rne_shift a (nat k)"
    have "a < 2 ^ (24 + nat k)" using a0 k k0 by (intro bitlen_upper) simp_all
    then have "a \<le> 2 ^ 24 * 2 ^ nat k" by (simp add: power_add)
    then have m1: "?m \<le> 2 ^ 24" by (rule rne_shift_le)
    have "0 \<le> a div 2 ^ nat k" using a0 by (simp add: pos_imp_zdiv_nonneg_iff)
    with rne_shift_between [of a "nat k"] have m0: "0 \<le> ?m" by linarith
    have m2: "2 ^ 23 \<le> ?m \<or> E + k = - 149"
    proof (cases "k = bitlen a - 24")
      case True
      have "2 ^ (23 + nat k) \<le> a" using a0 True k0 by (intro bitlen_lower) simp_all
      then have "2 ^ 23 * 2 ^ nat k \<le> a" by (simp add: power_add)
      then have "2 ^ 23 \<le> ?m" by (rule rne_shift_ge)
      then show ?thesis ..
    next
      case False
      with k show ?thesis by simp
    qed
    have s: "\<bar>sgn M * x\<bar> = \<bar>x\<bar>" for x using False by (simp add: abs_mult)
    show ?thesis
    proof (cases "?m = 2 ^ 24")
      case True
      with pos e show ?thesis by (simp add: r is_binary32_def s)
    next
      case neq: False
      with m1 have "?m < 2 ^ 24" by simp
      with pos neq m0 m2 e show ?thesis by (simp add: r is_binary32_def s)
    qed
  qed
qed

lemma valof_align:
  assumes "e \<le> exponent x"
  shows "real_of_int (significand x * 2 ^ nat (exponent x - e)) * 2 powi e = valof x"
proof -
  have "(2::real) ^ nat (exponent x - e) * 2 powi e = 2 powi (exponent x - e) * 2 powi e"
    using assms by (simp add: power_int_nonneg_exp)
  also have "\<dots> = 2 powi (exponent x - e + e)" by (simp only: two_powi_split)
  finally show ?thesis by (simp add: valof_def mult.assoc)
qed

lemma f32_less_valof: "f32_less x y \<longleftrightarrow> valof x < valof y"
proof -
  obtain e where e: "e = min (exponent x) (exponent y)" by blast
  obtain a where a: "a = significand x * 2 ^ nat (exponent x - e)" by blast
  obtain b where b: "b = significand y * 2 ^ nat (exponent y - e)" by blast
  have x: "valof x = real_of_int a * 2 powi e"
    unfolding a using e by (intro valof_align [symmetric]) simp
  have y: "valof y = real_of_int b * 2 powi e"
    unfolding b using e by (intro valof_align [symmetric]) simp
  have "f32_less x y \<longleftrightarrow> a < b" by (simp add: f32_less_def Let_def e a b)
  also have "\<dots> \<longleftrightarrow> real_of_int a < real_of_int b" by simp
  also have "\<dots> \<longleftrightarrow> real_of_int a * 2 powi e < real_of_int b * 2 powi e"
  proof -
    have "0 < (2::real) powi e" by simp
    then show ?thesis by (simp only: mult_less_cancel_right_pos)
  qed
  finally show ?thesis by (simp only: x y)
qed

lemma estimator_literals:
  "is_binary32 quality_weight" "\<bar>valof quality_weight - 1 / 100\<bar> \<le> 2 powi (- 31)"
  "is_binary32 hop_threshold" "valof hop_threshold = 3 / 4"
  "is_binary32 f32_one"
  by (simp_all add: is_binary32_def quality_weight_def hop_threshold_def f32_one_def)

lemma cw_value: "cw = Binary32 16609444 (- 24)"
  by code_simp

lemma estimator_constants:
  "f32_mul f32_one cw = cw" "f32_add cw quality_weight = f32_one"
  "f32_mul f32_one quality_weight = quality_weight"
  "f32_mul f32_zero quality_weight = f32_zero"
  by code_simp+

lemma estimator_values:
  "valof f32_one = 1" "valof f32_zero = 0" "0 \<le> valof cw" "0 \<le> valof quality_weight"
  by (simp_all add: valof_nonneg_iff f32_one_def f32_zero_def quality_weight_def; code_simp)+

text \<open>
  A quality below the threshold stays below it on a failed acknowledgement, whatever
  its sign.
\<close>

lemma round32_nonpos_significand:
  assumes "M \<le> 0"
  shows "significand (round32 M E) \<le> 0"
proof (cases "M = 0")
  case True
  then show ?thesis by (simp add: round32_def)
next
  case False
  with assms have M: "M < 0" by simp
  have "0 \<le> \<bar>M\<bar> div 2 ^ k" for k by (simp add: pos_imp_zdiv_nonneg_iff)
  with rne_shift_between [of "\<bar>M\<bar>"] have m: "0 \<le> rne_shift \<bar>M\<bar> k" for k
    by (meson order_trans)
  have s: "sgn M = - 1" using M by simp
  have "M * 2 ^ n \<le> 0" for n using M by (simp add: mult_le_0_iff)
  with m show ?thesis
    using False unfolding round32_def Let_def s by (auto simp del: abs_of_neg)
qed

lemma valof_nonpos_iff: "valof x \<le> 0 \<longleftrightarrow> significand x \<le> 0"
proof -
  have "0 < (2::real) powi exponent x" by simp
  then show ?thesis by (simp add: valof_def mult_le_0_iff not_le [symmetric])
qed

lemma decay_threshold:
  "f32_less (decay hop_threshold) hop_threshold" "0 \<le> valof hop_threshold"
  "f32_mul f32_zero quality_weight = f32_zero" "significand f32_zero = 0" "exponent f32_zero = - 149"
  by (code_simp | simp add: valof_nonneg_iff hop_threshold_def f32_zero_def)+

lemma decay_stays_below:
  assumes "f32_less q hop_threshold"
  shows "f32_less (decay q) hop_threshold"
proof (cases "0 \<le> valof q")
  case True
  have q: "valof q \<le> valof hop_threshold"
    using assms by (simp add: f32_less_valof)
  have z: "f32_mul (f32_of_bool False) quality_weight = f32_zero"
    by (simp add: f32_of_bool_def estimator_constants)
  have "valof q * valof cw \<le> valof hop_threshold * valof cw"
    using q estimator_values(3) by (rule mult_right_mono)
  with True estimator_values(3) have t: "valof (f32_mul q cw) \<le> valof (f32_mul hop_threshold cw)"
    by (rule f32_mul_mono)
  have t0: "0 \<le> valof (f32_mul q cw)"
    using True estimator_values(3) by (rule f32_mul_nonneg)
  have "valof (f32_mul q cw) + valof f32_zero \<le> valof (f32_mul hop_threshold cw) + valof f32_zero"
    using t by simp
  with t0 have "valof (f32_add (f32_mul q cw) f32_zero)
      \<le> valof (f32_add (f32_mul hop_threshold cw) f32_zero)"
    by (intro f32_add_mono) (simp_all add: estimator_values)
  then have "valof (decay q) \<le> valof (decay hop_threshold)"
    by (simp add: decay_def estimate_def z)
  also have "\<dots> < valof hop_threshold"
    using decay_threshold(1) by (simp add: f32_less_valof)
  finally show ?thesis by (simp add: f32_less_valof)
next
  case False
  then have "significand q \<le> 0" by (simp add: valof_nonneg_iff)
  moreover have "0 \<le> significand cw" using estimator_values(3) by (simp add: valof_nonneg_iff)
  ultimately have "significand q * significand cw \<le> 0" by (simp add: mult_le_0_iff)
  then have t: "significand (f32_mul q cw) \<le> 0"
    unfolding f32_mul_def by (rule round32_nonpos_significand)
  have z: "f32_mul (f32_of_bool False) quality_weight = f32_zero"
    by (simp add: f32_of_bool_def estimator_constants)
  have "significand (f32_mul q cw) * 2 ^ n \<le> 0" for n
    using t by (simp add: mult_le_0_iff)
  then have "significand (f32_add (f32_mul q cw) f32_zero) \<le> 0"
    unfolding f32_add_def Let_def
    by (intro round32_nonpos_significand) (simp add: decay_threshold)
  then have "valof (decay q) \<le> 0"
    by (simp add: decay_def estimate_def z valof_nonpos_iff)
  also have "0 < valof hop_threshold" by (simp add: hop_threshold_def)
  finally show ?thesis by (simp add: f32_less_valof)
qed

subsection \<open>The transmit surface of the sender\<close>

text \<open>
  C1, as the code has it. \<open>send\<close> fails with \<open>DataMoreThan249\<close>, handing nothing to
  the radio, exactly when \<open>len\<close> is greater than 249. For every other length, zero
  included, it hands the frame \<open>CMD_DATA # payload\<close> of \<open>len + 1\<close> bytes to
  \<open>esp_now_send\<close> and returns true exactly when the call returned 0.
\<close>

theorem send_payload_limit:
  assumes "unat len \<le> length data"
  shows "(249 < unat len \<longrightarrow> send pf s len data = (Inl DataMoreThan249, [])) \<and>
         (unat len \<le> 249 \<longrightarrow>
            snd (send pf s len data) =
              [EspNowSend (addr (peer s)) (CMD_DATA # take (unat len) data)] \<and>
            length (CMD_DATA # take (unat len) data) = unat len + 1 \<and>
            (send_ok (send pf s len data) \<longleftrightarrow>
               esp_now_send pf (addr (peer s)) (CMD_DATA # take (unat len) data) = 0))"
  using assms by (simp add: send_def send_ok_def Let_def)

theorem send_payload_limit_witness:
  "unat (249 :: byte) \<le> length (replicate 249 (0x42 :: byte)) \<and>
   snd (send radio_accepting sender_paired 249 (replicate 249 0x42)) =
     [EspNowSend (addr peer_example) (5 # replicate 249 0x42)] \<and>
   length (5 # replicate 249 (0x42 :: byte)) = 250 \<and>
   send_ok (send radio_accepting sender_paired 249 (replicate 249 0x42)) \<and>
   send radio_rejecting sender_paired 250 (replicate 250 0x42) = (Inl DataMoreThan249, [])"
  using send_payload_limit [of 249 "replicate 249 0x42" radio_accepting sender_paired]
    send_payload_limit [of 250 "replicate 250 0x42" radio_rejecting sender_paired]
  by (simp add: radio_accepting_def sender_paired_def CMD_DATA_def)

text \<open>
  C1 as stated fails at length 0: the empty payload is not refused, the one byte frame
  \<open>[5]\<close> goes to the radio and \<open>send\<close> reports success.
\<close>

theorem send_empty_counterexample:
  "send radio_accepting sender_paired 0 [] = (Inr (), [EspNowSend (addr peer_example) [5]]) \<and>
   send_ok (send radio_accepting sender_paired 0 [])"
  by (simp add: send_def send_ok_def radio_accepting_def sender_paired_def CMD_DATA_def)

subsection \<open>Data frames at the receiver\<close>

text \<open>
  C2, as the code has it. The paired receiver delivers every frame of one byte or more
  whose tag is 5 to \<open>onData\<close>, with the bytes after the tag as payload, and keeps its
  state; there is no upper or lower bound on the payload, so a frame that is the tag
  alone delivers the empty payload.
\<close>

theorem receiver_data_delivered:
  assumes "matched s" "1 \<le> length data" "data ! 0 = CMD_DATA"
  shows "receiver_onReceived pf s a data = (s, [OnData (drop 1 data)])"
  using assms by (simp add: receiver_onReceived_def command_defs)

theorem receiver_data_delivered_witness:
  "matched receiver_paired \<and> 1 \<le> length [5, 0xDE, 0xAD :: byte] \<and>
   [5, 0xDE, 0xAD :: byte] ! 0 = CMD_DATA \<and>
   receiver_onReceived radio_accepting receiver_paired [1,2,3,4,5,6] [5, 0xDE, 0xAD] =
     (receiver_paired, [OnData [0xDE, 0xAD]])"
  using receiver_data_delivered [of receiver_paired "[5, 0xDE, 0xAD]" radio_accepting "[1,2,3,4,5,6]"]
  by (simp add: receiver_paired_def command_defs)

text \<open>
  C2 as stated fails at the frame \<open>[5]\<close>: it is not dropped, \<open>onData\<close> is called with
  the empty payload.
\<close>

theorem receiver_empty_data_counterexample:
  "receiver_onReceived radio_accepting receiver_paired [1,2,3,4,5,6] [5] =
     (receiver_paired, [OnData []])"
  by (simp add: receiver_onReceived_def receiver_paired_def command_defs)

subsection \<open>Pairing at the receiver\<close>

lemma receiver_step_unpaired:
  assumes "\<not> matched s"
  shows "matched (fst (receiver_step s (pf, ev))) \<longleftrightarrow> (\<exists>a. ev = Sent a 0)"
  using assms by (cases ev) (simp_all add: receiver_onReceived_def receiver_onSent_def Let_def)

lemma receiver_run_unpaired:
  assumes "\<not> matched s" "list_all not_acked evs"
  shows "\<not> matched (fst (receiver_run s evs))"
  using assms
proof (induction evs arbitrary: s)
  case Nil
  then show ?case by simp
next
  case (Cons e es)
  obtain pf ev where e: "e = (pf, ev)" by (cases e)
  from Cons.prems(2) have "\<not> (\<exists>a. ev = Sent a 0)"
    by (auto simp: e not_acked_def)
  with Cons.prems(1) have "\<not> matched (fst (receiver_step s e))"
    unfolding e by (simp add: receiver_step_unpaired)
  moreover from Cons.prems(2) have "list_all not_acked es" by simp
  ultimately have "\<not> matched (fst (receiver_run (fst (receiver_step s e)) es))"
    by (rule Cons.IH)
  then show ?case by (auto split: prod.splits)
qed

text \<open>
  C3. An unpaired receiver becomes paired by an event exactly when the event is the
  upcall \<open>onSent\<close> with status 0. After any execution without such an event it is
  still unpaired, and a SEARCH frame from \<open>a'\<close> is answered with a SEARCH_REPLY to
  \<open>a'\<close> that carries 16 bytes drawn from the random generator during that call,
  which also become the stored key.
\<close>

theorem receiver_commits_on_ack:
  assumes "\<not> matched s"
  shows "(matched (fst (receiver_step s (pf, ev))) \<longleftrightarrow> (\<exists>a. ev = Sent a 0)) \<and>
         (list_all not_acked evs \<longrightarrow>
            (let s' = fst (receiver_run s evs); k = map (random_byte pf') [0..<16] in
             \<not> matched s' \<and> length k = 16 \<and>
             receiver_onReceived pf' s' a' [CMD_SEARCH] =
               (s'\<lparr>peer := \<lparr>addr = take 6 a', key = k\<rparr>\<rparr>, [EspNowSend a' (RPL_SEARCH # k)])))"
proof -
  have "receiver_onReceived pf' t a' [CMD_SEARCH] =
      (t\<lparr>peer := \<lparr>addr = take 6 a', key = map (random_byte pf') [0..<16]\<rparr>\<rparr>,
       [EspNowSend a' (RPL_SEARCH # map (random_byte pf') [0..<16])])" if "\<not> matched t" for t
    using that by (simp add: receiver_onReceived_def Let_def)
  with assms receiver_run_unpaired [of s evs] receiver_step_unpaired [of s pf ev]
  show ?thesis by (simp add: Let_def)
qed

theorem receiver_commits_on_ack_witness:
  "\<not> matched receiver_unpaired \<and>
   matched (fst (receiver_step receiver_unpaired (radio_accepting, Sent [1,2,3,4,5,6] 0))) \<and>
   list_all not_acked
     [(radio_accepting, Received [1,2,3,4,5,6] [CMD_SEARCH]),
      (radio_accepting, Sent [1,2,3,4,5,6] 1)] \<and>
   snd (receiver_onReceived radio_accepting
     (fst (receiver_run receiver_unpaired
        [(radio_accepting, Received [1,2,3,4,5,6] [CMD_SEARCH]),
         (radio_accepting, Sent [1,2,3,4,5,6] 1)]))
     [1,2,3,4,5,6] [CMD_SEARCH]) =
   [EspNowSend [1,2,3,4,5,6]
      [2, 1, 8, 15, 22, 29, 36, 43, 50, 57, 64, 71, 78, 85, 92, 99, 106]]"
proof -
  have u: "\<not> matched receiver_unpaired" by (simp add: receiver_unpaired_def)
  have f: "list_all not_acked
     [(radio_accepting, Received [1,2,3,4,5,6] [CMD_SEARCH]),
      (radio_accepting, Sent [1,2,3,4,5,6] 1)]"
    by (simp add: not_acked_def)
  have k: "map (random_byte radio_accepting) [0..<16] =
      [1, 8, 15, 22, 29, 36, 43, 50, 57, 64, 71, 78, 85, 92, 99, 106]"
    by (simp add: radio_accepting_def upt_rec)
  from receiver_commits_on_ack [OF u, of radio_accepting "Sent [1,2,3,4,5,6] 0"
     "[(radio_accepting, Received [1,2,3,4,5,6] [CMD_SEARCH]),
       (radio_accepting, Sent [1,2,3,4,5,6] 1)]"
     radio_accepting "[1,2,3,4,5,6]"] u f k
  show ?thesis by (simp add: Let_def RPL_SEARCH_def)
qed

subsection \<open>Channel hopping at the receiver\<close>

lemma byte_cases_1_13:
  fixes c :: byte
  assumes "1 \<le> c" "c \<le> 13"
  shows "c \<in> {1, 2, 3, 4, 5, 6, 7, 8, 9, 10, 11, 12, 13}"
proof -
  have "unat c \<in> {1..13}" using assms by (simp add: word_le_nat_alt)
  then have "unat c \<in> {1, 2, 3, 4, 5, 6, 7, 8, 9, 10, 11, 12, 13}" by (auto, arith)
  then have "of_nat (unat c) \<in> (of_nat ` {1, 2, 3, 4, 5, 6, 7, 8, 9, 10, 11, 12, 13} :: byte set)"
    by blast
  then show ?thesis by simp
qed

lemma direction_cases:
  fixes d :: "8 word"
  assumes "sint d = 1 \<or> sint d = - 1"
  shows "d = 1 \<or> d = - 1"
proof -
  have "sint (1 :: 8 word) = 1" "sint (- 1 :: 8 word) = - 1" by simp_all
  with assms have "sint d = sint (1 :: 8 word) \<or> sint d = sint (- 1 :: 8 word)" by simp
  then show ?thesis by (blast dest: signed_word_eqI)
qed

lemma hop_candidate_cases:
  fixes c d n :: byte
  assumes "c \<in> {1, 2, 3, 4, 5, 6, 7, 8, 9, 10, 11, 12, 13}" "d = 1 \<or> d = - 1"
      and "n = (if MAX_CHANNEL < word_of_int (uint c + sint d) then MAX_CHANNEL - 1
                else if word_of_int (uint c + sint d) < MIN_CHANNEL then MIN_CHANNEL + 1
                else word_of_int (uint c + sint d))"
  shows "uint n = clamp_and_reflect (uint c) (sint d)"
    and "MIN_CHANNEL \<le> n" and "n \<le> MAX_CHANNEL" and "n \<noteq> c"
    and "sint (n - c) = uint n - uint c"
    and "sint (n - c) = 1 \<or> sint (n - c) = - 1"
    and "c = MAX_CHANNEL \<and> sint d = 1 \<or> c = MIN_CHANNEL \<and> sint d = - 1
           \<longrightarrow> sint (n - c) = - sint d"
  using assms by (auto simp: channel_defs clamp_and_reflect_def)

lemma receiver_hop_request:
  assumes "matched s"
  shows "receiver_onReceived pf s a [CMD_HOP] =
     (let n = (if MAX_CHANNEL < word_of_int (uint (channel s) + sint (channel_direction s))
               then MAX_CHANNEL - 1
               else if word_of_int (uint (channel s) + sint (channel_direction s)) < MIN_CHANNEL
               then MIN_CHANNEL + 1
               else word_of_int (uint (channel s) + sint (channel_direction s)))
      in (s\<lparr>new_channel := n\<rparr>, [EspNowSend (addr (peer s)) [RPL_HOP, n]]))"
  using assms by (simp add: receiver_onReceived_def Let_def)

lemma receiver_hop_commit:
  assumes "matched s"
  shows "receiver_onSent pf s a 0 =
     (if wifi_set_channel pf (new_channel s)
      then (s\<lparr>channel_direction := new_channel s - channel s, channel := new_channel s\<rparr>,
            [WifiSetChannel (new_channel s)])
      else (s, [WifiSetChannel (new_channel s)]))"
  using assms by (simp add: receiver_onSent_def)

text \<open>
  C4. A paired receiver on a channel in 1..13 with direction +1 or -1 answers a
  HOP_REQUEST with the candidate of the specification: \<open>current + direction\<close>, reflected
  to 12 above 13 and to 2 below 1. The candidate is in 1..13 and differs from the
  current channel. When the reply is acknowledged and the channel is set, the candidate
  becomes the current channel and the direction becomes \<open>candidate - current\<close>, which is
  again +1 or -1 and, at an edge, the opposite of the old direction.
\<close>

theorem hop_candidate_reflects:
  assumes "matched s" "MIN_CHANNEL \<le> channel s" "channel s \<le> MAX_CHANNEL"
      and "sint (channel_direction s) = 1 \<or> sint (channel_direction s) = - 1"
      and "receiver_onReceived pf s a [CMD_HOP] = (s1, out1)"
      and "wifi_set_channel pf' (new_channel s1)"
      and "receiver_onSent pf' s1 a' 0 = (s2, out2)"
  shows "out1 = [EspNowSend (addr (peer s)) [RPL_HOP, new_channel s1]] \<and>
         uint (new_channel s1) =
           clamp_and_reflect (uint (channel s)) (sint (channel_direction s)) \<and>
         MIN_CHANNEL \<le> new_channel s1 \<and> new_channel s1 \<le> MAX_CHANNEL \<and>
         new_channel s1 \<noteq> channel s \<and>
         channel s1 = channel s \<and> channel_direction s1 = channel_direction s \<and>
         out2 = [WifiSetChannel (new_channel s1)] \<and>
         channel s2 = new_channel s1 \<and>
         sint (channel_direction s2) = uint (new_channel s1) - uint (channel s) \<and>
         (sint (channel_direction s2) = 1 \<or> sint (channel_direction s2) = - 1) \<and>
         (channel s = MAX_CHANNEL \<and> sint (channel_direction s) = 1 \<or>
          channel s = MIN_CHANNEL \<and> sint (channel_direction s) = - 1
            \<longrightarrow> sint (channel_direction s2) = - sint (channel_direction s))"
proof -
  let ?c = "channel s" and ?d = "channel_direction s"
  obtain n where n: "n = (if MAX_CHANNEL < word_of_int (uint ?c + sint ?d) then MAX_CHANNEL - 1
                else if word_of_int (uint ?c + sint ?d) < MIN_CHANNEL then MIN_CHANNEL + 1
                else word_of_int (uint ?c + sint ?d))" by blast
  have d: "?d = 1 \<or> ?d = - 1"
    using assms(4) by (rule direction_cases)
  have c: "?c \<in> {1, 2, 3, 4, 5, 6, 7, 8, 9, 10, 11, 12, 13}"
    using assms(2,3) by (intro byte_cases_1_13) (simp_all add: channel_defs)
  note props = hop_candidate_cases [OF c d n]
  have "receiver_onReceived pf s a [CMD_HOP] =
      (s\<lparr>new_channel := n\<rparr>, [EspNowSend (addr (peer s)) [RPL_HOP, n]])"
    unfolding receiver_hop_request [OF assms(1)] n Let_def ..
  with assms(5) have s1: "s1 = s\<lparr>new_channel := n\<rparr>"
    and out1: "out1 = [EspNowSend (addr (peer s)) [RPL_HOP, n]]" by simp_all
  have n1: "new_channel s1 = n" and c1: "channel s1 = ?c" and d1: "channel_direction s1 = ?d"
    and m1: "matched s1"
    using assms(1) by (simp_all add: s1)
  have "receiver_onSent pf' s1 a' 0 =
      (s1\<lparr>channel_direction := n - ?c, channel := n\<rparr>, [WifiSetChannel n])"
    using assms(6) by (simp add: receiver_hop_commit [OF m1] n1 c1)
  with assms(7) have s2: "s2 = s1\<lparr>channel_direction := n - ?c, channel := n\<rparr>"
    and out2: "out2 = [WifiSetChannel n]" by simp_all
  have c2: "channel s2 = n" and d2: "channel_direction s2 = n - ?c"
    by (simp_all add: s2)
  show ?thesis
    unfolding n1 c1 d1 c2 d2 out1 out2
    using props by blast
qed

theorem hop_candidate_reflects_witness:
  "matched receiver_paired \<and> channel receiver_paired = 13 \<and>
   sint (channel_direction receiver_paired) = 1 \<and>
   receiver_onReceived radio_accepting receiver_paired [1,2,3,4,5,6] [CMD_HOP] =
     (receiver_paired\<lparr>new_channel := 12\<rparr>, [EspNowSend (addr peer_example) [RPL_HOP, 12]]) \<and>
   receiver_onSent radio_accepting (receiver_paired\<lparr>new_channel := 12\<rparr>) [1,2,3,4,5,6] 0 =
     (receiver_paired\<lparr>new_channel := 12, channel_direction := - 1, channel := 12\<rparr>,
      [WifiSetChannel 12]) \<and>
   clamp_and_reflect 13 1 = 12 \<and> sint (- 1 :: 8 word) = - 1"
proof -
  have 1: "receiver_onReceived radio_accepting receiver_paired [1,2,3,4,5,6] [CMD_HOP] =
     (receiver_paired\<lparr>new_channel := 12\<rparr>, [EspNowSend (addr peer_example) [RPL_HOP, 12]])"
    by (simp add: receiver_onReceived_def receiver_paired_def command_defs channel_defs)
  have 2: "receiver_onSent radio_accepting (receiver_paired\<lparr>new_channel := 12\<rparr>) [1,2,3,4,5,6] 0 =
     (receiver_paired\<lparr>new_channel := 12, channel_direction := - 1, channel := 12\<rparr>,
      [WifiSetChannel 12])"
    by (simp add: receiver_onSent_def receiver_paired_def radio_accepting_def)
  have 3: "matched receiver_paired" "MIN_CHANNEL \<le> channel receiver_paired"
    "channel receiver_paired \<le> MAX_CHANNEL"
    "sint (channel_direction receiver_paired) = 1 \<or> sint (channel_direction receiver_paired) = - 1"
    "wifi_set_channel radio_accepting (new_channel (receiver_paired\<lparr>new_channel := 12\<rparr>))"
    by (simp_all add: receiver_paired_def channel_defs radio_accepting_def)
  from hop_candidate_reflects [OF 3(1-4) 1 3(5) 2] 1 2 3
  show ?thesis by (simp add: receiver_paired_def clamp_and_reflect_def channel_defs)
qed

text \<open>
  The hop as it is meant to run. A paired receiver does not call \<open>wifi_set_channel\<close>
  and does not change its channel or direction while it handles a received frame, nor
  when \<open>onSent\<close> reports a failure. When \<open>onSent\<close> reports success after a
  HOP_REQUEST was answered, the call is made with the channel that the HOP_REPLY
  carried; the channel and the direction are updated when the call succeeds and the
  state is left as it was when it fails.
\<close>

lemma receiver_hops_after_ack:
  assumes "matched s"
      and "receiver_onReceived pf s a [CMD_HOP] = (s1, out1)"
  shows "(\<forall>b data c. WifiSetChannel c \<notin> set (snd (receiver_onReceived pf s b data)) \<and>
            channel (fst (receiver_onReceived pf s b data)) = channel s \<and>
            channel_direction (fst (receiver_onReceived pf s b data)) = channel_direction s) \<and>
         (\<forall>b status. status \<noteq> 0 \<longrightarrow> receiver_onSent pf s b status = (s, [])) \<and>
         out1 = [EspNowSend (addr (peer s)) [RPL_HOP, new_channel s1]] \<and>
         receiver_onSent pf' s1 a' 0 =
           (if wifi_set_channel pf' (new_channel s1)
            then (s1\<lparr>channel_direction := word_of_int (uint (new_channel s1) - uint (channel s)),
                     channel := new_channel s1\<rparr>, [WifiSetChannel (new_channel s1)])
            else (s1, [WifiSetChannel (new_channel s1)]))"
proof -
  have 1: "WifiSetChannel c \<notin> set (snd (receiver_onReceived pf s b data)) \<and>
            channel (fst (receiver_onReceived pf s b data)) = channel s \<and>
            channel_direction (fst (receiver_onReceived pf s b data)) = channel_direction s"
    for b data c
    using assms(1) by (simp add: receiver_onReceived_def Let_def)
  have 2: "receiver_onSent pf s b status = (s, [])" if "status \<noteq> 0" for b status
    using assms(1) that by (simp add: receiver_onSent_def)
  from assms have 3: "out1 = [EspNowSend (addr (peer s)) [RPL_HOP, new_channel s1]]"
    and m: "matched s1" and c: "channel s1 = channel s"
    by (auto simp: receiver_onReceived_def Let_def)
  have 4: "receiver_onSent pf' s1 a' 0 =
           (if wifi_set_channel pf' (new_channel s1)
            then (s1\<lparr>channel_direction := word_of_int (uint (new_channel s1) - uint (channel s)),
                     channel := new_channel s1\<rparr>, [WifiSetChannel (new_channel s1)])
            else (s1, [WifiSetChannel (new_channel s1)]))"
    using m c by (simp add: receiver_onSent_def)
  from 1 2 3 4 show ?thesis by blast
qed

lemma receiver_hops_after_ack_example:
  "matched receiver_paired \<and>
   receiver_onReceived radio_accepting receiver_paired [1,2,3,4,5,6] [CMD_HOP] =
     (receiver_paired\<lparr>new_channel := 12\<rparr>, [EspNowSend (addr peer_example) [RPL_HOP, 12]]) \<and>
   receiver_onSent radio_accepting receiver_paired [1,2,3,4,5,6] 1 = (receiver_paired, []) \<and>
   receiver_onSent radio_rejecting (receiver_paired\<lparr>new_channel := 12\<rparr>) [1,2,3,4,5,6] 0 =
     (receiver_paired\<lparr>new_channel := 12\<rparr>, [WifiSetChannel 12])"
proof -
  have 1: "receiver_onReceived radio_accepting receiver_paired [1,2,3,4,5,6] [CMD_HOP] =
     (receiver_paired\<lparr>new_channel := 12\<rparr>, [EspNowSend (addr peer_example) [RPL_HOP, 12]])"
    by (simp add: receiver_onReceived_def receiver_paired_def command_defs channel_defs)
  have 2: "matched receiver_paired" by (simp add: receiver_paired_def)
  from receiver_hops_after_ack [OF 2 1, of radio_rejecting "[1,2,3,4,5,6]"] 1 2
  show ?thesis by (simp add: radio_rejecting_def)
qed

text \<open>
  C5. The claim states what the code is written to do: the comment in the paired
  branch of \<^verbatim>\<open>onSent\<close> takes the acknowledged frame for the HOP_REPLY. The code does
  not keep to it. \<^verbatim>\<open>onSent\<close> is told an address and a status only, and when two SEARCH
  frames are answered before the first acknowledgement arrives, the first success
  pairs the receiver and the second, the acknowledgement of a SEARCH_REPLY, runs the
  paired branch: \<open>wifi_set_channel\<close> is called although no HOP_REPLY was ever sent,
  with \<open>new_channel\<close> that no HOP_REQUEST has assigned (0 in the statically
  initialised object), and the receiver is left on channel 0 with direction -7.
\<close>

theorem receiver_stale_ack_sets_channel:
  "receiver_run receiver_unpaired
     [(radio_accepting, Received [1,2,3,4,5,6] [CMD_SEARCH]),
      (radio_accepting, Received [1,2,3,4,5,6] [CMD_SEARCH]),
      (radio_accepting, Sent [1,2,3,4,5,6] 0),
      (radio_accepting, Sent [1,2,3,4,5,6] 0)] =
   (receiver_unpaired
      \<lparr>matched := True,
       peer := \<lparr>addr = [1,2,3,4,5,6], key = map (random_byte radio_accepting) [0..<16]\<rparr>,
       channel_direction := - 7, channel := 0\<rparr>,
    [EspNowSend [1,2,3,4,5,6] (RPL_SEARCH # map (random_byte radio_accepting) [0..<16]),
     EspNowSend [1,2,3,4,5,6] (RPL_SEARCH # map (random_byte radio_accepting) [0..<16]),
     WifiSetChannel 0])"
  by (simp add: receiver_onReceived_def receiver_onSent_def receiver_unpaired_def
      radio_accepting_def command_defs Let_def)

subsection \<open>The quality estimator of the sender\<close>

lemma sender_onSent_estimate:
  "sender_onSent pf s a status =
     (if \<not> matched s then (s, [])
      else if f32_less (estimate (radio_quality s) (status = 0)) hop_threshold then
        (if esp_now_send pf (addr (peer s)) [CMD_HOP] = 0
         then (s\<lparr>radio_quality := f32_one\<rparr>, hop_request s)
         else (s\<lparr>radio_quality := estimate (radio_quality s) (status = 0)\<rparr>, hop_request s))
      else (s\<lparr>radio_quality := estimate (radio_quality s) (status = 0)\<rparr>, []))"
  by (simp add: sender_onSent_def estimate_def hop_request_def Let_def)

lemma one_not_below_threshold: "\<not> f32_less f32_one hop_threshold"
  by (simp add: f32_less_def f32_one_def hop_threshold_def)

text \<open>
  C6, as the code has it. When the value \<open>q\<close> computed by a paired sender on an
  acknowledgement report is below the threshold, the hook is called and a HOP_REQUEST
  is handed to the radio; the quality is 1.0 afterwards exactly when \<open>esp_now_send\<close>
  returned 0. When it did not, the quality is \<open>q\<close>, still below the threshold, and
  every next report of a failed acknowledgement hands a HOP_REQUEST to the radio again.
\<close>

theorem hop_request_resets_quality:
  assumes "matched s"
      and "q = f32_add (f32_mul (radio_quality s) cw)
                 (f32_mul (f32_of_bool (status = 0)) quality_weight)"
      and "f32_less q hop_threshold"
      and "sender_onSent pf s a status = (s', out)"
  shows "out = [OnLowRadioQuality, EspNowSend (addr (peer s)) [CMD_HOP]] \<and>
         (radio_quality s' = f32_one \<longleftrightarrow> esp_now_send pf (addr (peer s)) [CMD_HOP] = 0) \<and>
         (esp_now_send pf (addr (peer s)) [CMD_HOP] \<noteq> 0 \<longrightarrow>
            radio_quality s' = q \<and>
            (\<forall>pf' a' status'. status' \<noteq> 0 \<longrightarrow>
               snd (sender_onSent pf' s' a' status') =
                 [OnLowRadioQuality, EspNowSend (addr (peer s)) [CMD_HOP]]))"
proof -
  from assms(3) one_not_below_threshold have ne: "q \<noteq> f32_one" by auto
  have e: "q = estimate (radio_quality s) (status = 0)"
    by (simp add: assms(2) estimate_def)
  have out: "out = [OnLowRadioQuality, EspNowSend (addr (peer s)) [CMD_HOP]]"
    using assms(1,3,4) by (auto simp: sender_onSent_estimate e hop_request_def split: if_splits)
  have iff: "radio_quality s' = f32_one \<longleftrightarrow> esp_now_send pf (addr (peer s)) [CMD_HOP] = 0"
    using assms(1,3,4) ne by (auto simp: sender_onSent_estimate e split: if_splits)
  have rej: "radio_quality s' = q \<and>
      (\<forall>pf' a' status'. status' \<noteq> 0 \<longrightarrow>
         snd (sender_onSent pf' s' a' status') =
           [OnLowRadioQuality, EspNowSend (addr (peer s)) [CMD_HOP]])"
    if no: "esp_now_send pf (addr (peer s)) [CMD_HOP] \<noteq> 0"
  proof -
    have s': "s' = s\<lparr>radio_quality := q\<rparr>"
      using assms(1,3,4) no by (auto simp: sender_onSent_estimate e split: if_splits)
    have low: "f32_less (estimate q False) hop_threshold"
      using decay_stays_below [OF assms(3)] by (simp add: decay_def)
    have "snd (sender_onSent pf' s' a' status') =
        [OnLowRadioQuality, EspNowSend (addr (peer s)) [CMD_HOP]]"
      if "status' \<noteq> 0" for pf' a' status'
      using that assms(1) low by (simp add: sender_onSent_estimate s' hop_request_def)
    then show ?thesis by (simp add: s')
  qed
  from out iff rej show ?thesis by blast
qed

theorem hop_request_resets_quality_witness:
  "matched sender_fading \<and>
   f32_less (Binary32 12535470 (- 24)) hop_threshold \<and>
   sender_onSent radio_accepting sender_fading [1,2,3,4,5,6] 1 =
     (sender_fading\<lparr>radio_quality := f32_one\<rparr>,
      [OnLowRadioQuality, EspNowSend (addr peer_example) [CMD_HOP]]) \<and>
   sender_onSent radio_rejecting sender_fading [1,2,3,4,5,6] 1 =
     (sender_fading\<lparr>radio_quality := Binary32 12535470 (- 24)\<rparr>,
      [OnLowRadioQuality, EspNowSend (addr peer_example) [CMD_HOP]]) \<and>
   snd (sender_onSent radio_accepting
          (sender_fading\<lparr>radio_quality := Binary32 12535470 (- 24)\<rparr>) [1,2,3,4,5,6] 1) =
     [OnLowRadioQuality, EspNowSend (addr peer_example) [CMD_HOP]]"
proof -
  have m: "matched sender_fading" by (simp add: sender_fading_def)
  have q: "Binary32 12535470 (- 24) =
      f32_add (f32_mul (radio_quality sender_fading) cw)
        (f32_mul (f32_of_bool ((1 :: byte) = 0)) quality_weight)"
    by code_simp
  have l: "f32_less (Binary32 12535470 (- 24)) hop_threshold" by code_simp
  obtain s1 out1 where 1: "sender_onSent radio_accepting sender_fading [1,2,3,4,5,6] 1 = (s1, out1)"
    by (cases "sender_onSent radio_accepting sender_fading [1,2,3,4,5,6] 1")
  obtain s2 out2 where 2: "sender_onSent radio_rejecting sender_fading [1,2,3,4,5,6] 1 = (s2, out2)"
    by (cases "sender_onSent radio_rejecting sender_fading [1,2,3,4,5,6] 1")
  have s1: "s1 = sender_fading\<lparr>radio_quality := radio_quality s1\<rparr>"
    using 1 m by (auto simp: sender_onSent_def Let_def split: if_splits)
  have s2: "s2 = sender_fading\<lparr>radio_quality := radio_quality s2\<rparr>"
    using 2 m by (auto simp: sender_onSent_def Let_def split: if_splits)
  have a: "esp_now_send radio_accepting (addr (peer sender_fading)) [CMD_HOP] = 0"
    and r: "esp_now_send radio_rejecting (addr (peer sender_fading)) [CMD_HOP] \<noteq> 0"
    and p: "addr (peer sender_fading) = addr peer_example"
    by (simp_all add: radio_accepting_def radio_rejecting_def sender_fading_def)
  note A = hop_request_resets_quality [OF m q l 1]
  note R = hop_request_resets_quality [OF m q l 2]
  have o1: "out1 = [OnLowRadioQuality, EspNowSend (addr peer_example) [CMD_HOP]]"
    using A by (simp add: p)
  have o2: "out2 = [OnLowRadioQuality, EspNowSend (addr peer_example) [CMD_HOP]]"
    using R by (simp add: p)
  have q1: "radio_quality s1 = f32_one" using A a by blast
  have q2: "radio_quality s2 = Binary32 12535470 (- 24)" using R r by blast
  have "(1 :: byte) \<noteq> 0" by simp
  with R r have again: "snd (sender_onSent radio_accepting s2 [1,2,3,4,5,6] 1) =
      [OnLowRadioQuality, EspNowSend (addr peer_example) [CMD_HOP]]"
    unfolding p by blast
  have s2': "s2 = sender_fading\<lparr>radio_quality := Binary32 12535470 (- 24)\<rparr>"
    using s2 q2 by simp
  have s1': "s1 = sender_fading\<lparr>radio_quality := f32_one\<rparr>"
    using s1 q1 by simp
  from 1 2 m l again show ?thesis
    unfolding o1 o2 s1' s2' by blast
qed

text \<open>
  C6 as stated fails where it says that a rejected send makes the condition retrigger
  on the next acknowledgement report. From quality 1.0, after 27 failed reports, one
  successful and two failed ones, the HOP_REQUEST is emitted and rejected and the
  quality is below the threshold; the next report, a successful one, lifts the quality
  to the threshold or above and nothing is emitted.
\<close>

theorem successful_ack_ends_retry_counterexample:
  "snd (sender_run sender_paired
      (replicate 27 (radio_rejecting, Sent [1,2,3,4,5,6] 1) @
       [(radio_rejecting, Sent [1,2,3,4,5,6] 0),
        (radio_rejecting, Sent [1,2,3,4,5,6] 1),
        (radio_rejecting, Sent [1,2,3,4,5,6] 1)])) =
     [OnLowRadioQuality, EspNowSend (addr peer_example) [CMD_HOP]] \<and>
   radio_quality (fst (sender_run sender_paired
      (replicate 27 (radio_rejecting, Sent [1,2,3,4,5,6] 1) @
       [(radio_rejecting, Sent [1,2,3,4,5,6] 0),
        (radio_rejecting, Sent [1,2,3,4,5,6] 1),
        (radio_rejecting, Sent [1,2,3,4,5,6] 1)]))) = Binary32 12574548 (- 24) \<and>
   f32_less (Binary32 12574548 (- 24)) hop_threshold \<and>
   sender_onSent radio_accepting (sender_paired\<lparr>radio_quality := Binary32 12574548 (- 24)\<rparr>)
      [1,2,3,4,5,6] 0 =
     (sender_paired\<lparr>radio_quality := Binary32 12616575 (- 24)\<rparr>, []) \<and>
   \<not> f32_less (Binary32 12616575 (- 24)) hop_threshold"
proof -
  have 1: "snd (sender_run sender_paired
      (replicate 27 (radio_rejecting, Sent [1,2,3,4,5,6] 1) @
       [(radio_rejecting, Sent [1,2,3,4,5,6] 0),
        (radio_rejecting, Sent [1,2,3,4,5,6] 1),
        (radio_rejecting, Sent [1,2,3,4,5,6] 1)])) =
     [OnLowRadioQuality, EspNowSend (addr peer_example) [CMD_HOP]]"
    by code_simp
  have 2: "radio_quality (fst (sender_run sender_paired
      (replicate 27 (radio_rejecting, Sent [1,2,3,4,5,6] 1) @
       [(radio_rejecting, Sent [1,2,3,4,5,6] 0),
        (radio_rejecting, Sent [1,2,3,4,5,6] 1),
        (radio_rejecting, Sent [1,2,3,4,5,6] 1)]))) = Binary32 12574548 (- 24)"
    by code_simp
  have 3: "f32_less (Binary32 12574548 (- 24)) hop_threshold"
    "\<not> f32_less (Binary32 12616575 (- 24)) hop_threshold"
    "estimate (Binary32 12574548 (- 24)) True = Binary32 12616575 (- 24)"
    by code_simp+
  have 4: "sender_onSent radio_accepting (sender_paired\<lparr>radio_quality := Binary32 12574548 (- 24)\<rparr>)
      [1,2,3,4,5,6] 0 =
     (sender_paired\<lparr>radio_quality := Binary32 12616575 (- 24)\<rparr>, [])"
    by (simp add: sender_onSent_estimate 3 sender_paired_def)
  from 1 2 3 4 show ?thesis by blast
qed


lemma estimate_bounds:
  assumes "0 \<le> valof q" "valof q \<le> 1"
  shows "0 \<le> valof (estimate q b) \<and> valof (estimate q b) \<le> 1"
proof -
  let ?t = "f32_mul q cw" and ?u = "f32_mul (f32_of_bool b) quality_weight"
  have t0: "0 \<le> valof ?t"
    using assms(1) estimator_values(3) by (rule f32_mul_nonneg)
  have "valof q * valof cw \<le> 1 * valof cw"
    using assms(2) estimator_values(3) by (rule mult_right_mono)
  then have "valof q * valof cw \<le> valof f32_one * valof cw"
    by (simp only: estimator_values(1))
  with assms(1) estimator_values(3) have "valof ?t \<le> valof (f32_mul f32_one cw)"
    by (rule f32_mul_mono)
  then have t1: "valof ?t \<le> valof cw" by (simp only: estimator_constants)
  have u: "?u = quality_weight \<or> ?u = f32_zero"
    by (simp add: f32_of_bool_def estimator_constants)
  then have u0: "0 \<le> valof ?u" and u1: "valof ?u \<le> valof quality_weight"
    using estimator_values(2,4) by auto
  from t1 u1 have "valof ?t + valof ?u \<le> valof cw + valof quality_weight" by simp
  with t0 u0 have "valof (f32_add ?t ?u) \<le> valof (f32_add cw quality_weight)"
    by (rule f32_add_mono)
  then have "valof (f32_add ?t ?u) \<le> 1"
    by (simp only: estimator_constants estimator_values)
  moreover from t0 u0 have "0 \<le> valof (f32_add ?t ?u)" by (rule f32_add_nonneg)
  ultimately show ?thesis by (simp add: estimate_def)
qed

lemma sender_step_quality:
  assumes "0 \<le> valof (radio_quality s)" "valof (radio_quality s) \<le> 1"
  shows "0 \<le> valof (radio_quality (fst (sender_step s e))) \<and>
         valof (radio_quality (fst (sender_step s e))) \<le> 1"
proof -
  obtain pf ev where e: "e = (pf, ev)" by (cases e)
  show ?thesis
  proof (cases ev)
    case (Received a data)
    with assms show ?thesis by (simp add: e sender_onReceived_def)
  next
    case (Sent a status)
    with assms estimate_bounds [OF assms, of "status = 0"] show ?thesis
      by (simp add: e sender_onSent_estimate estimator_values)
  qed
qed

lemma sender_run_quality:
  assumes "0 \<le> valof (radio_quality s)" "valof (radio_quality s) \<le> 1"
  shows "0 \<le> valof (radio_quality (fst (sender_run s evs))) \<and>
         valof (radio_quality (fst (sender_run s evs))) \<le> 1"
  using assms
proof (induction evs arbitrary: s)
  case Nil
  then show ?case by simp
next
  case (Cons e es)
  from sender_step_quality [OF Cons.prems, of e]
  have "0 \<le> valof (radio_quality (fst (sender_run (fst (sender_step s e)) es))) \<and>
        valof (radio_quality (fst (sender_run (fst (sender_step s e)) es))) \<le> 1"
    by (intro Cons.IH) simp_all
  then show ?case by (auto split: prod.splits)
qed

text \<open>
  Until the sender is paired no upcall assigns \<^verbatim>\<open>radio_quality\<close>, so the value that
  \<^verbatim>\<open>BasicSender::begin\<close> gives it is the value the estimator starts from.
\<close>

lemma unpaired_sender_keeps_quality:
  assumes "\<not> matched s"
  shows "radio_quality (fst (sender_step s e)) = radio_quality s"
proof -
  obtain pf ev where e: "e = (pf, ev)" by (cases e)
  show ?thesis
    using assms by (cases ev) (simp_all add: e sender_onReceived_def sender_onSent_def)
qed

text \<open>
  C7. \<^verbatim>\<open>BasicSender::begin\<close> sets \<^verbatim>\<open>radio_quality\<close> to 1.0. From a state with that
  value, whatever the upcalls, their statuses and the answers of the radio are, the
  quality after the first \<open>n\<close> upcalls of an execution is a number from 0 to 1, for
  every \<open>n\<close>. The bound holds for the rounded binary32 arithmetic of the code, not
  only for the exact convex combination.
\<close>

theorem quality_stays_in_unit_interval:
  assumes "radio_quality s = f32_one"
  shows "0 \<le> valof (radio_quality (fst (sender_run s (take n evs)))) \<and>
         valof (radio_quality (fst (sender_run s (take n evs)))) \<le> 1"
  using assms by (intro sender_run_quality) (simp_all add: estimator_values)

theorem quality_stays_in_unit_interval_witness:
  "radio_quality sender_paired = f32_one \<and>
   radio_quality (fst (sender_run sender_paired (take 2
      [(radio_rejecting, Sent [1,2,3,4,5,6] 1), (radio_accepting, Sent [1,2,3,4,5,6] 0),
       (radio_accepting, Sent [1,2,3,4,5,6] 0)]))) =
     Binary32 16611122 (- 24) \<and>
   0 \<le> valof (Binary32 16611122 (- 24)) \<and> valof (Binary32 16611122 (- 24)) \<le> 1"
proof -
  have 1: "radio_quality sender_paired = f32_one" by (simp add: sender_paired_def)
  have 2: "radio_quality (fst (sender_run sender_paired (take 2
      [(radio_rejecting, Sent [1,2,3,4,5,6] 1), (radio_accepting, Sent [1,2,3,4,5,6] 0),
       (radio_accepting, Sent [1,2,3,4,5,6] 0)]))) =
     Binary32 16611122 (- 24)"
    by code_simp
  from quality_stays_in_unit_interval [OF 1, of 2
    "[(radio_rejecting, Sent [1,2,3,4,5,6] 1), (radio_accepting, Sent [1,2,3,4,5,6] 0),
      (radio_accepting, Sent [1,2,3,4,5,6] 0)]"] 1 2
  show ?thesis by simp
qed

subsection \<open>Forty failed acknowledgements\<close>

lemma sender_run_append:
  "sender_run s (xs @ ys) =
     (case sender_run s xs of (s', out) \<Rightarrow>
        case sender_run s' ys of (s'', out') \<Rightarrow> (s'', out @ out'))"
  by (induction xs arbitrary: s) (auto split: prod.splits)

lemma failed_ack_step:
  assumes "matched s" "failed_ack e"
  shows "sender_step s e =
     (if f32_less (decay (radio_quality s)) hop_threshold then
        (if esp_now_send (fst e) (addr (peer s)) [CMD_HOP] = 0
         then (s\<lparr>radio_quality := f32_one\<rparr>, hop_request s)
         else (s\<lparr>radio_quality := decay (radio_quality s)\<rparr>, hop_request s))
      else (s\<lparr>radio_quality := decay (radio_quality s)\<rparr>, []))"
proof -
  obtain pf ev where e: "e = (pf, ev)" by (cases e)
  from assms(2) obtain a status where ev: "ev = Sent a status" and st: "status \<noteq> 0"
    by (cases ev) (auto simp: e failed_ack_def)
  show ?thesis
    using assms(1) st by (simp add: e ev sender_onSent_estimate decay_def)
qed

lemma failed_acks_run:
  assumes "matched s" "list_all failed_ack evs"
      and "\<forall>i < length evs. \<not> f32_less (decays (Suc i) (radio_quality s)) hop_threshold"
  shows "sender_run s evs = (s\<lparr>radio_quality := decays (length evs) (radio_quality s)\<rparr>, [])"
  using assms
proof (induction evs arbitrary: s)
  case Nil
  then show ?case by simp
next
  case (Cons e es)
  let ?s = "s\<lparr>radio_quality := decay (radio_quality s)\<rparr>"
  from Cons.prems(3) have "\<not> f32_less (decays (Suc 0) (radio_quality s)) hop_threshold"
    by (metis length_Cons zero_less_Suc)
  then have "\<not> f32_less (decay (radio_quality s)) hop_threshold" by simp
  with Cons.prems(1,2) have step: "sender_step s e = (?s, [])"
    by (simp add: failed_ack_step)
  have "\<forall>i < length es. \<not> f32_less (decays (Suc i) (radio_quality ?s)) hop_threshold"
  proof (intro allI impI)
    fix i assume "i < length es"
    then have "Suc i < length (e # es)" by simp
    with Cons.prems(3) have "\<not> f32_less (decays (Suc (Suc i)) (radio_quality s)) hop_threshold"
      by blast
    then show "\<not> f32_less (decays (Suc i) (radio_quality ?s)) hop_threshold"
      by simp
  qed
  with Cons.prems(1,2) have "sender_run ?s es =
      (?s\<lparr>radio_quality := decays (length es) (radio_quality ?s)\<rparr>, [])"
    by (intro Cons.IH) simp_all
  with step show ?case by simp
qed

lemma stays_above_28: "stays_above 28 f32_one"
  by code_simp

lemma stays_aboveD:
  assumes "stays_above n q" "i < n"
  shows "\<not> f32_less (decays (Suc i) q) hop_threshold"
  using assms
proof (induction n arbitrary: q i)
  case 0
  then show ?case by simp
next
  case (Suc n)
  show ?case
  proof (cases i)
    case 0
    with Suc.prems show ?thesis by simp
  next
    case (Suc j)
    with Suc.prems have "stays_above n (decay q)" "j < n" by simp_all
    then have "\<not> f32_less (decays (Suc j) (decay q)) hop_threshold" by (rule Suc.IH)
    with Suc show ?thesis by simp
  qed
qed

lemma decay_values:
  "decays 28 f32_one = Binary32 12662091 (- 24)"
  "decay (Binary32 12662091 (- 24)) = Binary32 12535470 (- 24)"
  "f32_less (Binary32 12535470 (- 24)) hop_threshold"
  "f32_less (decay (Binary32 12535470 (- 24))) hop_threshold"
  by code_simp+

lemma take_Suc_nth:
  assumes "n < length xs"
  shows "take (Suc n) xs = take n xs @ [xs ! n]"
  using assms by (rule take_Suc_conv_app_nth)

text \<open>
  C8, as the code has it. From quality 1.0, the first 28 of 40 failed acknowledgements
  cause no emission and leave the quality at or above the threshold; the 29th gives a
  value below it and emits the first HOP_REQUEST. If the radio accepts that frame the
  quality is 1.0 again and the frame is the only emission of the whole run. If the
  radio rejects it the quality stays at the low value and the 30th failed
  acknowledgement emits a HOP_REQUEST again.
\<close>

theorem forty_failed_acks:
  assumes "matched s" "radio_quality s = f32_one" "length evs = 40" "list_all failed_ack evs"
  shows "sender_run s (take 28 evs) = (s\<lparr>radio_quality := Binary32 12662091 (- 24)\<rparr>, []) \<and>
         \<not> f32_less (Binary32 12662091 (- 24)) hop_threshold \<and>
         f32_less (decay (Binary32 12662091 (- 24))) hop_threshold \<and>
         snd (sender_run s (take 29 evs)) = hop_request s \<and>
         (esp_now_send (fst (evs ! 28)) (addr (peer s)) [CMD_HOP] = 0 \<longrightarrow>
            radio_quality (fst (sender_run s (take 29 evs))) = f32_one \<and>
            snd (sender_run s evs) = hop_request s) \<and>
         (esp_now_send (fst (evs ! 28)) (addr (peer s)) [CMD_HOP] \<noteq> 0 \<longrightarrow>
            radio_quality (fst (sender_run s (take 29 evs))) = decay (Binary32 12662091 (- 24)) \<and>
            snd (sender_run s (take 30 evs)) = hop_request s @ hop_request s)"
proof -
  let ?q28 = "Binary32 12662091 (- 24)"
  let ?s28 = "s\<lparr>radio_quality := ?q28\<rparr>"
  have fa: "list_all failed_ack (take n evs)" "list_all failed_ack (drop n evs)" for n
    using assms(4) by (auto simp: list_all_iff dest: in_set_takeD in_set_dropD)
  have f28: "failed_ack (evs ! 28)" and f29: "failed_ack (evs ! 29)"
    using assms(3,4) by (simp_all add: list_all_length)
  have "sender_run s (take 28 evs) =
      (s\<lparr>radio_quality := decays (length (take 28 evs)) (radio_quality s)\<rparr>, [])"
    using assms(1) fa(1)
  proof (rule failed_acks_run)
    show "\<forall>i<length (take 28 evs). \<not> f32_less (decays (Suc i) (radio_quality s)) hop_threshold"
      using stays_aboveD [OF stays_above_28] by (simp add: assms(2,3))
  qed
  then have r28: "sender_run s (take 28 evs) = (?s28, [])"
    by (simp add: assms(2,3) decay_values(1))
  have above: "\<not> f32_less ?q28 hop_threshold"
  proof -
    have "Suc 27 = 28" by simp
    with stays_aboveD [OF stays_above_28, of 27] show ?thesis
      by (simp only: decay_values(1)) simp
  qed
  have below: "f32_less (decay ?q28) hop_threshold"
    by (simp add: decay_values)
  have m28: "matched ?s28" and q28: "radio_quality ?s28 = ?q28" using assms(1) by simp_all
  have step29: "sender_step ?s28 (evs ! 28) =
      (if esp_now_send (fst (evs ! 28)) (addr (peer s)) [CMD_HOP] = 0
       then (s\<lparr>radio_quality := f32_one\<rparr>, hop_request s)
       else (s\<lparr>radio_quality := decay ?q28\<rparr>, hop_request s))"
    using below by (simp add: failed_ack_step [OF m28 f28] hop_request_def)
  have t29: "take 29 evs = take 28 evs @ [evs ! 28]"
    using assms(3) take_Suc_nth [of 28 evs] by simp
  have r29: "sender_run s (take 29 evs) = sender_step ?s28 (evs ! 28)"
    by (simp add: t29 sender_run_append r28 split: prod.splits)
  have out29: "snd (sender_run s (take 29 evs)) = hop_request s"
    by (simp add: r29 step29)
  have acc: "radio_quality (fst (sender_run s (take 29 evs))) = f32_one \<and>
      snd (sender_run s evs) = hop_request s"
    if ok: "esp_now_send (fst (evs ! 28)) (addr (peer s)) [CMD_HOP] = 0"
  proof -
    let ?s29 = "s\<lparr>radio_quality := f32_one\<rparr>"
    have r: "sender_run s (take 29 evs) = (?s29, hop_request s)"
      using ok by (simp add: r29 step29)
    have "sender_run ?s29 (drop 29 evs) =
        (?s29\<lparr>radio_quality := decays (length (drop 29 evs)) (radio_quality ?s29)\<rparr>, [])"
    proof (rule failed_acks_run)
      show "matched ?s29" using assms(1) by simp
      show "list_all failed_ack (drop 29 evs)" by (rule fa(2))
      show "\<forall>i<length (drop 29 evs). \<not> f32_less (decays (Suc i) (radio_quality ?s29)) hop_threshold"
        using stays_aboveD [OF stays_above_28] by (simp add: assms(3))
    qed
    then have "snd (sender_run ?s29 (drop 29 evs)) = []" by simp
    moreover have "evs = take 29 evs @ drop 29 evs" by simp
    then have "sender_run s evs =
        (case sender_run s (take 29 evs) of (s', out) \<Rightarrow>
           case sender_run s' (drop 29 evs) of (s'', out') \<Rightarrow> (s'', out @ out'))"
      by (metis sender_run_append)
    ultimately have "snd (sender_run s evs) = hop_request s"
      by (simp add: r split: prod.splits)
    with r show ?thesis by simp
  qed
  have rej: "radio_quality (fst (sender_run s (take 29 evs))) = decay ?q28 \<and>
      snd (sender_run s (take 30 evs)) = hop_request s @ hop_request s"
    if no: "esp_now_send (fst (evs ! 28)) (addr (peer s)) [CMD_HOP] \<noteq> 0"
  proof -
    let ?s29 = "s\<lparr>radio_quality := decay ?q28\<rparr>"
    have r: "sender_run s (take 29 evs) = (?s29, hop_request s)"
      using no by (simp add: r29 step29)
    have m29: "matched ?s29" using assms(1) by simp
    have "f32_less (decay (radio_quality ?s29)) hop_threshold"
      by (simp add: decay_values)
    then have "snd (sender_step ?s29 (evs ! 29)) = hop_request s"
      by (simp add: failed_ack_step [OF m29 f29] hop_request_def)
    moreover have "take 30 evs = take 29 evs @ [evs ! 29]"
      using assms(3) take_Suc_nth [of 29 evs] by simp
    ultimately have "snd (sender_run s (take 30 evs)) = hop_request s @ hop_request s"
      by (auto simp: sender_run_append r split: prod.splits)
    with r show ?thesis by simp
  qed
  from r28 above below out29 acc rej show ?thesis by blast
qed

theorem forty_failed_acks_witness:
  "matched sender_paired \<and> radio_quality sender_paired = f32_one \<and>
   length (replicate 40 (radio_accepting, Sent [1,2,3,4,5,6] 1)) = 40 \<and>
   list_all failed_ack (replicate 40 (radio_accepting, Sent [1,2,3,4,5,6] 1)) \<and>
   list_all failed_ack (replicate 40 (radio_rejecting, Sent [1,2,3,4,5,6] 1)) \<and>
   snd (sender_run sender_paired (replicate 40 (radio_accepting, Sent [1,2,3,4,5,6] 1))) =
     hop_request sender_paired \<and>
   snd (sender_run sender_paired (take 30 (replicate 40 (radio_rejecting, Sent [1,2,3,4,5,6] 1)))) =
     hop_request sender_paired @ hop_request sender_paired"
proof -
  have 1: "matched sender_paired" "radio_quality sender_paired = f32_one"
    by (simp_all add: sender_paired_def)
  have 2: "length (replicate 40 (pf, Sent [1,2,3,4,5,6] (1 :: byte))) = 40"
    "list_all failed_ack (replicate 40 (pf, Sent [1,2,3,4,5,6] 1))" for pf :: platform
    by (simp_all add: list_all_length failed_ack_def)
  have 3: "esp_now_send (fst (replicate 40 (radio_accepting, Sent [1,2,3,4,5,6] (1 :: byte)) ! 28))
      (addr (peer sender_paired)) [CMD_HOP] = 0"
    "esp_now_send (fst (replicate 40 (radio_rejecting, Sent [1,2,3,4,5,6] (1 :: byte)) ! 28))
      (addr (peer sender_paired)) [CMD_HOP] \<noteq> 0"
    by (simp_all add: radio_accepting_def radio_rejecting_def)
  from forty_failed_acks [OF 1 2 [of radio_accepting]]
    forty_failed_acks [OF 1 2 [of radio_rejecting]] 1 2 3
  show ?thesis by blast
qed

text \<open>
  C8 as stated fails when the radio rejects the frames: each of the failed
  acknowledgements 29 to 40 emits a HOP_REQUEST, 12 in the run and not one.
\<close>

theorem retried_hop_request_counterexample:
  "length (filter (\<lambda>x. x = EspNowSend (addr peer_example) [CMD_HOP])
     (snd (sender_run sender_paired (replicate 40 (radio_rejecting, Sent [1,2,3,4,5,6] 1))))) = 12"
  by code_simp

subsection \<open>Hop replies at the sender\<close>

text \<open>
  C10. A paired sender that receives the two byte frame \<open>[RPL_HOP, c]\<close> calls
  \<open>wifi_set_channel\<close> with \<open>c\<close> itself, whatever byte \<open>c\<close> is: there is no test
  against \<open>MIN_CHANNEL\<close> or \<open>MAX_CHANNEL\<close>.
\<close>

theorem sender_hop_reply_unchecked:
  "matched s \<Longrightarrow> sender_onReceived pf s a [RPL_HOP, c] = (s, [WifiSetChannel c])"
  by (simp add: sender_onReceived_def)

theorem sender_hop_reply_unchecked_witness:
  "matched sender_paired \<and> \<not> (200 :: byte) \<le> MAX_CHANNEL \<and>
   sender_onReceived radio_accepting sender_paired [1,2,3,4,5,6] [RPL_HOP, 200] =
     (sender_paired, [WifiSetChannel 200])"
  using sender_hop_reply_unchecked [of sender_paired radio_accepting "[1,2,3,4,5,6]" 200]
  by (simp add: sender_paired_def channel_defs)

subsection \<open>Reset\<close>

text \<open>
  C9. Take any file system in which a removal that reports success leaves the path
  absent and a removal that reports failure leaves the file system as it was. Then a
  second \<open>reset\<close> returns what the first returned and leaves the file system as the
  first left it; a \<open>reset\<close> that returns true leaves the peer file absent;
  \<open>reset\<close> returns true without touching anything when the peer file is absent; and
  when the peer file exists \<open>reset\<close> is the removal of that file: its result and the
  file system it leaves are those of \<open>fs_remove\<close>. The last two parts need no
  assumption on the file system.
\<close>

theorem reset_idempotent:
  assumes removed: "\<And>fs fs'. fs_remove L fs FPATH_PEER = (True, fs') \<Longrightarrow>
                      \<not> fs_exists L fs' FPATH_PEER"
      and failed: "\<And>fs fs'. fs_remove L fs FPATH_PEER = (False, fs') \<Longrightarrow> fs' = fs"
  shows "reset L (snd (reset L fs)) = reset L fs \<and>
         (fst (reset L fs) \<longrightarrow> \<not> fs_exists L (snd (reset L fs)) FPATH_PEER) \<and>
         (\<not> fs_exists L fs FPATH_PEER \<longrightarrow> reset L fs = (True, fs)) \<and>
         (fs_exists L fs FPATH_PEER \<longrightarrow> reset L fs = fs_remove L fs FPATH_PEER)"
proof (cases "fs_exists L fs FPATH_PEER")
  case False
  then show ?thesis by (simp add: reset_def)
next
  case True
  obtain ok fs' where r: "fs_remove L fs FPATH_PEER = (ok, fs')"
    by (cases "fs_remove L fs FPATH_PEER")
  show ?thesis
  proof (cases ok)
    case True
    with r have "fs_remove L fs FPATH_PEER = (True, fs')" by simp
    then have "\<not> fs_exists L fs' FPATH_PEER" by (rule removed)
    with True r \<open>fs_exists L fs FPATH_PEER\<close> show ?thesis by (simp add: reset_def)
  next
    case False
    with r have "fs_remove L fs FPATH_PEER = (False, fs')" by simp
    then have "fs' = fs" by (rule failed)
    with False r \<open>fs_exists L fs FPATH_PEER\<close> show ?thesis by (simp add: reset_def)
  qed
qed

theorem reset_idempotent_witness:
  "reset blob_fs (snd (reset blob_fs store_example)) = reset blob_fs store_example \<and>
   fs_exists blob_fs store_example FPATH_PEER \<and>
   reset blob_fs store_example = fs_remove blob_fs store_example FPATH_PEER \<and>
   reset blob_fs store_example = (True, (Map.empty, {}))"
proof -
  have a: "\<not> fs_exists blob_fs fs' FPATH_PEER"
    if "fs_remove blob_fs fs FPATH_PEER = (True, fs')" for fs fs'
    using that by (auto simp: blob_fs_def split: prod.splits if_splits)
  have b: "fs' = fs" if "fs_remove blob_fs fs FPATH_PEER = (False, fs')" for fs fs'
    using that by (auto simp: blob_fs_def split: prod.splits if_splits)
  have c: "reset blob_fs store_example = (True, (Map.empty, {}))"
    by (simp add: reset_def blob_fs_def store_example_def)
  have d: "fs_exists blob_fs store_example FPATH_PEER"
    by (simp add: blob_fs_def store_example_def)
  have "reset blob_fs (snd (reset blob_fs store_example)) = reset blob_fs store_example \<and>
      (fst (reset blob_fs store_example) \<longrightarrow>
         \<not> fs_exists blob_fs (snd (reset blob_fs store_example)) FPATH_PEER) \<and>
      (\<not> fs_exists blob_fs store_example FPATH_PEER \<longrightarrow>
         reset blob_fs store_example = (True, store_example)) \<and>
      (fs_exists blob_fs store_example FPATH_PEER \<longrightarrow>
         reset blob_fs store_example = fs_remove blob_fs store_example FPATH_PEER)"
    using a b by (rule reset_idempotent)
  with c d show ?thesis by blast
qed

end
